theory Spec2Isabelle
  imports Complex_Main "HOL-Library.AList" "HOL-Library.Multiset"
begin

section \<open>The colourimetry pipeline: data model and operations\<close>

text \<open>
  The Python sources compute with IEEE doubles held in numpy arrays. The model works
  over the real numbers: an array of floats is a \<open>real list\<close>, \<open>10 ** (-x)\<close> is
  \<open>10 powr (- x)\<close> and \<open>np.log10\<close> is \<open>log 10\<close>. Rounding error, infinities and NaN
  are outside the model. A Python \<open>dict\<close> is an association list with distinct keys in
  insertion order: \<open>d[k] = v\<close> is \<open>AList.update k v d\<close> (the value is replaced in
  place, a new key is appended), \<open>k in d\<close> and \<open>d[k]\<close> are read with \<open>map_of\<close>.
  An exception is a value of type \<open>error\<close>, returned as \<open>Inl\<close>.
\<close>

subsection \<open>Exceptions\<close>

datatype error =
    ValueError string
  | KeyError string
  | RuntimeError string
  | IndexError string
  | OSError string
  | TypeError string

definition quoted :: "string \<Rightarrow> string" where
  "quoted s = [CHR 0x27] @ s @ [CHR 0x27]"

subsection \<open>numpy helpers\<close>

text \<open>\<open>np.clip(x, lo, hi)\<close> on one element: \<open>minimum(maximum(x, lo), hi)\<close>.\<close>

definition np_clip :: "real \<Rightarrow> real \<Rightarrow> real \<Rightarrow> real" where
  "np_clip x lo hi = min (max x lo) hi"

text \<open>\<open>np.clip(x, lo, None)\<close>: only the lower bound.\<close>

definition np_clip_lo :: "real \<Rightarrow> real \<Rightarrow> real" where
  "np_clip_lo x lo = max x lo"

text \<open>
  \<open>arr.mean()\<close> of a one-dimensional array. numpy answers NaN (with a warning) for an
  empty array; HOL's \<open>x / 0 = 0\<close> stands there, and no theorem below reads it.
\<close>

definition np_mean :: "real list \<Rightarrow> real" where
  "np_mean xs = sum_list xs / real (length xs)"

text \<open>
  \<open>a - b\<close> on one-dimensional arrays, with numpy's broadcasting: equal lengths
  subtract element-wise, an array of length one is stretched, anything else raises.
\<close>

definition np_sub :: "real list \<Rightarrow> real list \<Rightarrow> error + real list" where
  "np_sub xs ys =
     (if length xs = length ys then Inr (map2 (-) xs ys)
      else if length ys = 1 then Inr (map (\<lambda>x. x - hd ys) xs)
      else if length xs = 1 then Inr (map (\<lambda>y. hd xs - y) ys)
      else Inl (ValueError ''operands could not be broadcast together''))"

text \<open>\<open>np.linalg.norm\<close> of a vector: the square root of the sum of squares.\<close>

definition np_linalg_norm :: "real list \<Rightarrow> real" where
  "np_linalg_norm xs = sqrt (sum_list (map (\<lambda>x. x * x) xs))"

text \<open>The slice \<open>xs[1:3]\<close>.\<close>

definition slice_1_3 :: "'a list \<Rightarrow> 'a list" where
  "slice_1_3 xs = take 2 (drop 1 xs)"

subsection \<open>analysis.py: colour differences\<close>

definition delta_e :: "real list \<Rightarrow> real list \<Rightarrow> error + real" where
  "delta_e sample_lab reference_lab =
     (case np_sub sample_lab reference_lab of
        Inl e \<Rightarrow> Inl e
      | Inr d \<Rightarrow> Inr (np_linalg_norm d))"

definition delta_c :: "real list \<Rightarrow> real list \<Rightarrow> error + real" where
  "delta_c sample_lab reference_lab =
     (case np_sub (slice_1_3 sample_lab) (slice_1_3 reference_lab) of
        Inl e \<Rightarrow> Inl e
      | Inr d \<Rightarrow> Inr (np_linalg_norm d))"

subsection \<open>analysis.py: hexadecimal rendering\<close>

text \<open>
  Python's \<open>round\<close> to an integer rounds a tie to the even neighbour.
\<close>

definition py_round :: "real \<Rightarrow> int" where
  "py_round x =
     (let f = \<lfloor>x\<rfloor>; d = x - of_int f
      in if d < 1 / 2 then f
         else if 1 / 2 < d then f + 1
         else if even f then f else f + 1)"

definition hex_char :: "nat \<Rightarrow> char" where
  "hex_char d = ''0123456789abcdef'' ! d"

fun hex_digits :: "nat \<Rightarrow> string" where
  "hex_digits n = (if n < 16 then [hex_char n] else hex_digits (n div 16) @ [hex_char (n mod 16)])"

declare hex_digits.simps [simp del]

text \<open>
  The format specification \<open>{:02x}\<close>: lowercase hexadecimal, padded with zeros to two
  characters, the sign of a negative number counted in the width.
\<close>

definition format_02x :: "int \<Rightarrow> string" where
  "format_02x i =
     (if i < 0
      then (let d = hex_digits (nat (- i)) in ''-'' @ replicate (1 - length d) CHR ''0'' @ d)
      else (let d = hex_digits (nat i) in replicate (2 - length d) CHR ''0'' @ d))"

text \<open>
  \<open>"#{:02x}{:02x}{:02x}".format(*[...])\<close> reads the first three values of the list and
  raises IndexError when there are fewer.
\<close>

definition rgb_to_hex :: "real list \<Rightarrow> error + string" where
  "rgb_to_hex rgb =
     (case map (\<lambda>val. py_round (np_clip val 0 1 * 255)) rgb of
        r # g # b # _ \<Rightarrow> Inr (''#'' @ format_02x r @ format_02x g @ format_02x b)
      | _ \<Rightarrow> Inl (IndexError ''Replacement index out of range for positional args tuple''))"

text \<open>
  The rendering in the specification's words: the channel clipped to \<open>[0, 1]\<close>, scaled
  by 255, as two lowercase hexadecimal digits.
\<close>

definition two_hex_digits :: "nat \<Rightarrow> string" where
  "two_hex_digits n = [hex_char (n div 16), hex_char (n mod 16)]"

definition channel_byte :: "real \<Rightarrow> int" where
  "channel_byte val = py_round (min (max val 0) 1 * 255)"

subsection \<open>analysis.py: spectrum to tristimulus values\<close>

text \<open>
  The colour-science package \<open>colour\<close> is not part of the repository. The functions
  \<open>spectrum_to_xyz\<close> calls are the fields of a record, each allowed to raise; the
  package as a whole is \<open>None\<close> when its import failed. \<open>sd_to_XYZ\<close> stands for the
  call with the CIE 1931 2 degree observer and \<open>method="Integration"\<close>.
\<close>

record 'sd colour_lib =
  SpectralDistribution :: "(real \<times> real) list \<Rightarrow> error + 'sd"
  sd_to_XYZ :: "'sd \<Rightarrow> 'sd option \<Rightarrow> error + real list"
  XYZ_to_Lab :: "real list \<Rightarrow> error + real list"
  XYZ_to_sRGB :: "real list \<Rightarrow> error + real list"

text \<open>\<open>dict(zip(keys, values))\<close>: a later pair replaces the value of an equal key.\<close>

definition dict_of :: "('k \<times> 'v) list \<Rightarrow> ('k \<times> 'v) list" where
  "dict_of pairs = fold (\<lambda>(k, v) d. AList.update k v d) pairs []"

text \<open>The band mask of \<open>spectrum_to_xyz\<close> on one wavelength/value pair.\<close>

definition in_band :: "real \<times> real \<Rightarrow> bool" where
  "in_band pair = (360 \<le> fst pair \<and> fst pair \<le> 800)"

text \<open>
  \<open>np.array(spectrum, dtype=float)\<close> of an empty sequence is one-dimensional, and
  \<open>spectrum[:, 0]\<close> then raises IndexError.
\<close>

definition spectrum_to_xyz ::
  "'sd colour_lib option \<Rightarrow> (real \<times> real) list \<Rightarrow> bool \<Rightarrow> 'sd option
     \<Rightarrow> error + (real list \<times> real list \<times> real list)" where
  "spectrum_to_xyz colour spectrum absorbance illuminant =
     (case colour of
        None \<Rightarrow> Inl (RuntimeError ''The 'colour' package is required for colourimetric computations.'')
      | Some lib \<Rightarrow>
          if spectrum = [] then Inl (IndexError ''too many indices for array'')
          else
            (let kept = filter in_band spectrum;
                 ws = map fst kept;
                 vals = map snd kept;
                 transmittance = (if absorbance then map (\<lambda>v. 10 powr (- v)) vals else vals)
             in case SpectralDistribution lib (dict_of (zip ws transmittance)) of
                  Inl e \<Rightarrow> Inl e
                | Inr sd_transmittance \<Rightarrow>
                    (case sd_to_XYZ lib sd_transmittance illuminant of
                       Inl e \<Rightarrow> Inl e
                     | Inr raw \<Rightarrow>
                         (let xyz = map (\<lambda>v. v / 100) raw
                          in case XYZ_to_Lab lib xyz of
                               Inl e \<Rightarrow> Inl e
                             | Inr lab \<Rightarrow>
                                 (case XYZ_to_sRGB lib xyz of
                                    Inl e \<Rightarrow> Inl e
                                  | Inr rgb \<Rightarrow> Inr (map (\<lambda>c. np_clip c 0 1) rgb, lab, xyz))))))"

text \<open>
  A stand-in for the package, for the worked example of \<open>spectrum_to_xyz\<close>: the
  distribution is the dictionary itself, the raw tristimulus is 100 times the sum of
  the transmittances, 50 and 250, and the sRGB conversion subtracts 1.
\<close>

definition toy_lib :: "((real \<times> real) list) colour_lib" where
  "toy_lib = \<lparr>SpectralDistribution = (\<lambda>d. Inr d),
              sd_to_XYZ = (\<lambda>sd illuminant. Inr [100 * sum_list (map snd sd), 50, 250]),
              XYZ_to_Lab = (\<lambda>xyz. Inr xyz),
              XYZ_to_sRGB = (\<lambda>xyz. Inr (map (\<lambda>x. x - 1) xyz))\<rparr>"

subsection \<open>pipeline.py: derived scores\<close>

definition compute_colour_distances :: "real list \<Rightarrow> real \<times> real" where
  "compute_colour_distances rgb =
     (let reference_rgb = map (\<lambda>c. c / 255) [68, 77, 55];
          decolouring = (sum_list rgb - sum_list reference_rgb) / (3 - sum_list reference_rgb) * 100;
          white_distance = (1 - np_mean rgb) * 100
      in (decolouring, white_distance))"

subsection \<open>spectrum_parser.py: spectral records and the SPC parser\<close>

record SpectralRecord =
  wavelengths :: "real list"
  absorbances :: "real list"
  transmittances :: "real list"

text \<open>
  \<open>str.upper\<close> and \<open>str.lower\<close> on ASCII letters (the only letters a mode or a file
  extension of this program contains).
\<close>

definition char_upper :: "char \<Rightarrow> char" where
  "char_upper c = (case map_of (zip ''abcdefghijklmnopqrstuvwxyz'' ''ABCDEFGHIJKLMNOPQRSTUVWXYZ'') c of
                     None \<Rightarrow> c | Some u \<Rightarrow> u)"

definition char_lower :: "char \<Rightarrow> char" where
  "char_lower c = (case map_of (zip ''ABCDEFGHIJKLMNOPQRSTUVWXYZ'' ''abcdefghijklmnopqrstuvwxyz'') c of
                     None \<Rightarrow> c | Some l \<Rightarrow> l)"

definition str_upper :: "string \<Rightarrow> string" where
  "str_upper s = map char_upper s"

definition str_lower :: "string \<Rightarrow> string" where
  "str_lower s = map char_lower s"

text \<open>
  \<open>SpectralRecord.as_pairs\<close>, a generator function: what iterating its generator
  gives, the wavelength/value pairs of the requested quantity; the dictionary lookup
  raises KeyError for any other quantity.
\<close>

definition as_pairs :: "SpectralRecord \<Rightarrow> string \<Rightarrow> error + (real \<times> real) list" where
  "as_pairs r quantity =
     (let q = str_lower quantity
      in if q = ''absorbance'' then Inr (zip (wavelengths r) (absorbances r))
         else if q = ''transmittance'' then Inr (zip (wavelengths r) (transmittances r))
         else Inl (KeyError q))"

record SpcFileParser =
  filename :: string
  mode :: string

definition SpcFileParser_init :: "string \<Rightarrow> string \<Rightarrow> error + SpcFileParser" where
  "SpcFileParser_init file m =
     (let up = str_upper m
      in if up \<notin> {''A'', ''T'', ''R''}
         then Inl (ValueError ''mode must be 'A' (absorbance), 'T' (transmittance) or 'R' (reflectance)'')
         else Inr \<lparr>filename = file, mode = up\<rparr>)"

text \<open>
  What \<open>specio.specread\<close> hands back, as far as the parser reads it: the wavelength
  axis and one amplitude per wavelength. The reader itself is not part of the
  repository; it is a parameter of \<open>parse\<close>, \<open>None\<close> when the import failed.
\<close>

record Spectrum =
  wavelength :: "real list"
  amplitudes :: "real list"

text \<open>Boolean-mask indexing \<open>xs[selector]\<close> and index-array indexing \<open>xs[idx]\<close>.\<close>

definition np_mask :: "bool list \<Rightarrow> 'a list \<Rightarrow> 'a list" where
  "np_mask selector xs = map snd (filter fst (zip selector xs))"

definition take_idx :: "'a list \<Rightarrow> nat list \<Rightarrow> 'a list" where
  "take_idx xs idx = map (\<lambda>i. xs ! i) idx"

text \<open>
  \<open>np.argsort\<close>: the indices that sort the array ascending. Equal keys keep their
  order here; numpy's default sort does not promise that, and no theorem below
  depends on the order of equal wavelengths.
\<close>

definition np_argsort :: "real list \<Rightarrow> nat list" where
  "np_argsort xs = sort_key (\<lambda>i. xs ! i) [0..<length xs]"

text \<open>The three branches of \<open>parse\<close> on the mode: (absorbances, transmittances).\<close>

definition mode_quantities :: "string \<Rightarrow> real list \<Rightarrow> real list \<times> real list" where
  "mode_quantities m amps =
     (if m = ''A'' then (amps, map (\<lambda>a. 10 powr (- a)) amps)
      else if m = ''T'' then (map (\<lambda>a. - log 10 (np_clip_lo a (1 / 10 ^ 12))) amps, amps)
      else (map (\<lambda>a. 1 - a) amps, map (\<lambda>a. 10 powr (- (1 - a))) amps))"

text \<open>\<open>wavelengths % 1 == 0\<close>, \<open>>= 250\<close> and \<open><= 800\<close>, for one wavelength.\<close>

definition valid_wavelength :: "real \<Rightarrow> bool" where
  "valid_wavelength w = (w - of_int \<lfloor>w\<rfloor> = 0 \<and> 250 \<le> w \<and> w \<le> 800)"

definition parse :: "(string \<Rightarrow> error + Spectrum) option \<Rightarrow> SpcFileParser \<Rightarrow> error + SpectralRecord" where
  "parse specread p =
     (case specread of
        None \<Rightarrow> Inl (RuntimeError ''specio is not available in this environment. Install it to parse SPC files.'')
      | Some rd \<Rightarrow>
          (case rd (filename p) of
             Inl e \<Rightarrow> Inl e
           | Inr spectra \<Rightarrow>
               (let ws = wavelength spectra;
                    amps = amplitudes spectra;
                    (absorb, transm) = mode_quantities (mode p) amps;
                    selector = map valid_wavelength ws
                in if length amps \<noteq> length ws
                   then Inl (IndexError ''boolean index did not match indexed array along axis 0'')
                   else (let sort_idx = np_argsort (np_mask selector ws)
                         in Inr \<lparr>wavelengths = take_idx (np_mask selector ws) sort_idx,
                                 absorbances = take_idx (np_mask selector absorb) sort_idx,
                                 transmittances = take_idx (np_mask selector transm) sort_idx\<rparr>))))"

subsection \<open>datasets.py: entries, collections and replicate averaging\<close>

record DatasetEntry =
  entry_record :: SpectralRecord
  measurement :: string
  metadata :: "(string \<times> string) list"

type_synonym DatasetCollection = "(string \<times> DatasetEntry) list"

text \<open>\<open>DatasetCollection.add\<close>, \<open>subset\<close> (which raises KeyError on a missing key) and \<open>extend\<close>.\<close>

definition add :: "string \<Rightarrow> SpectralRecord \<Rightarrow> string \<Rightarrow> (string \<times> string) list
    \<Rightarrow> DatasetCollection \<Rightarrow> DatasetCollection" where
  "add nm r meas md c = AList.update nm \<lparr>entry_record = r, measurement = meas, metadata = md\<rparr> c"

fun subset_loop :: "DatasetCollection \<Rightarrow> string list \<Rightarrow> DatasetCollection \<Rightarrow> error + DatasetCollection" where
  "subset_loop c [] acc = Inr acc"
| "subset_loop c (key # ks) acc =
     (case map_of c key of
        None \<Rightarrow> Inl (KeyError key)
      | Some e \<Rightarrow> subset_loop c ks (AList.update key e acc))"

definition subset :: "DatasetCollection \<Rightarrow> string list \<Rightarrow> error + DatasetCollection" where
  "subset c ks = subset_loop c ks []"

text \<open>
  \<open>extend\<close> is \<open>dict.update\<close>: every item of the other dictionary is stored, in its
  order. (Every record declares a constant \<open>extend\<close> of its own, hence the longer name.)
\<close>

definition extend_with :: "DatasetCollection \<Rightarrow> DatasetCollection \<Rightarrow> DatasetCollection" where
  "extend_with c other = fold (\<lambda>(k, e) acc. AList.update k e acc) other c"

text \<open>\<open>suffix in key\<close> and \<open>key.split(suffix)[0]\<close> for a non-empty separator.\<close>

fun str_contains :: "string \<Rightarrow> string \<Rightarrow> bool" where
  "str_contains sep [] = (sep = [])"
| "str_contains sep (c # cs) = (take (length sep) (c # cs) = sep \<or> str_contains sep cs)"

fun split_first :: "string \<Rightarrow> string \<Rightarrow> string" where
  "split_first sep [] = []"
| "split_first sep (c # cs) = (if take (length sep) (c # cs) = sep then [] else c # split_first sep cs)"

definition key_root :: "string \<Rightarrow> string \<Rightarrow> string" where
  "key_root suffix key = (if suffix \<noteq> [] \<and> str_contains suffix key then split_first suffix key else key)"

text \<open>The first loop of \<open>averaged\<close>: \<open>grouped[root].append(entry)\<close> on a \<open>defaultdict(list)\<close>.\<close>

definition group_by_root :: "string \<Rightarrow> DatasetCollection \<Rightarrow> (string \<times> DatasetEntry list) list" where
  "group_by_root suffix c =
     fold (\<lambda>(key, entry) grouped.
             AList.map_default (key_root suffix key) [entry] (\<lambda>es. es @ [entry]) grouped) c []"

text \<open>
  \<open>np.stack(rows, axis=0)\<close> raises ValueError unless all rows have one shape;
  \<open>.mean(axis=0)\<close> of the stacked rows is the column-wise arithmetic mean.
\<close>

definition np_stack :: "real list list \<Rightarrow> error + real list list" where
  "np_stack rows =
     (if rows = [] then Inl (ValueError ''need at least one array to stack'')
      else if list_all (\<lambda>r. length r = length (hd rows)) rows then Inr rows
      else Inl (ValueError ''all input arrays must have the same shape''))"

definition mean_axis0 :: "real list list \<Rightarrow> real list" where
  "mean_axis0 rows =
     map (\<lambda>j. sum_list (map (\<lambda>r. r ! j) rows) / real (length rows)) [0..<length (hd rows)]"

definition average_entries :: "DatasetEntry list \<Rightarrow> error + DatasetEntry" where
  "average_entries entries =
     (case np_stack (map (\<lambda>entry. wavelengths (entry_record entry)) entries) of
        Inl e \<Rightarrow> Inl e
      | Inr ws \<Rightarrow>
          (case np_stack (map (\<lambda>entry. transmittances (entry_record entry)) entries) of
             Inl e \<Rightarrow> Inl e
           | Inr vs \<Rightarrow>
               (let mean_wavelengths = mean_axis0 ws;
                    mean_values = mean_axis0 vs;
                    absorb = map (\<lambda>v. - log 10 (np_clip_lo v (1 / 10 ^ 12))) mean_values
                in Inr \<lparr>entry_record = \<lparr>wavelengths = mean_wavelengths, absorbances = absorb,
                                          transmittances = mean_values\<rparr>,
                        measurement = ''transmittance'',
                        metadata = metadata (hd entries)\<rparr>)))"

fun averaged_loop :: "(string \<times> DatasetEntry list) list \<Rightarrow> DatasetCollection \<Rightarrow> error + DatasetCollection" where
  "averaged_loop [] acc = Inr acc"
| "averaged_loop ((rt, entries) # rest) acc =
     (if length entries = 1 then averaged_loop rest (AList.update rt (hd entries) acc)
      else (case average_entries entries of
              Inl e \<Rightarrow> Inl e
            | Inr avg \<Rightarrow> averaged_loop rest (AList.update rt avg acc)))"

definition averaged :: "string \<Rightarrow> DatasetCollection \<Rightarrow> error + DatasetCollection" where
  "averaged suffix c = averaged_loop (group_by_root suffix c) []"


text \<open>
  Vocabulary for the theorems on averaging: the entries of a collection whose keys have
  the root \<open>r\<close>, in the collection's order; rows that all have the length of the first
  (what \<open>np.stack\<close> accepts); and an entry with the default measurement tag and no
  metadata, for the worked examples.
\<close>

definition replicates :: "string \<Rightarrow> DatasetCollection \<Rightarrow> string \<Rightarrow> DatasetEntry list" where
  "replicates suffix c r = map snd (filter (\<lambda>(key, entry). key_root suffix key = r) c)"

definition same_shape :: "real list list \<Rightarrow> bool" where
  "same_shape rows = list_all (\<lambda>r. length r = length (hd rows)) rows"

definition example_entry :: "real list \<Rightarrow> real list \<Rightarrow> real list \<Rightarrow> DatasetEntry" where
  "example_entry ws as ts =
     \<lparr>entry_record = \<lparr>wavelengths = ws, absorbances = as, transmittances = ts\<rparr>,
      measurement = ''transmittance'', metadata = []\<rparr>"


subsection \<open>config.py: configuration records\<close>

text \<open>
  The fields the pipeline's loading, grouping and analysis read. A field whose name
  another record already uses carries a prefix. The paths of the file system are
  strings.
\<close>

record DirectoryConfig =
  dir_name :: string
  path :: string
  dir_mode :: string
  dir_measurement :: string
  extension :: string
  replicate_suffix :: string

record DatasetGroup =
  group_name :: string
  source :: string
  keys :: "string list"
  extra_assignments :: "(string \<times> string) list"

record 'il NotebookConfig =
  directories :: "DirectoryConfig list"
  config_groups :: "DatasetGroup list"
  illuminants :: "(string \<times> 'il) list"
  reference_lab :: "real list"

subsection \<open>datasets.py: loading a directory\<close>

text \<open>
  The file system and the SPC reader are the environment of \<open>from_directory\<close>:
  whether a path exists, the value of \<open>sorted(Path(path).iterdir())\<close> (each item
  with the stem and suffix \<open>pathlib\<close> gives it) or the error \<open>iterdir\<close> raises, and
  \<open>specio.specread\<close>.
\<close>

record DirItem =
  item_path :: string
  stem :: string
  item_suffix :: string

record FileSystem =
  path_exists :: "string \<Rightarrow> bool"
  sorted_iterdir :: "string \<Rightarrow> error + DirItem list"
  spc_reader :: "(string \<Rightarrow> error + Spectrum) option"

fun from_directory_loop ::
  "FileSystem \<Rightarrow> string \<Rightarrow> string \<Rightarrow> string \<Rightarrow> DirItem list \<Rightarrow> DatasetCollection
     \<Rightarrow> error + DatasetCollection" where
  "from_directory_loop fs meas m ext [] collection = Inr collection"
| "from_directory_loop fs meas m ext (item # items) collection =
     (if str_lower (item_suffix item) \<noteq> str_lower ext
      then from_directory_loop fs meas m ext items collection
      else (case SpcFileParser_init (item_path item) m of
              Inl e \<Rightarrow> Inl e
            | Inr parser \<Rightarrow>
                (case parse (spc_reader fs) parser of
                   Inl e \<Rightarrow> Inl e
                 | Inr r \<Rightarrow> from_directory_loop fs meas m ext items (add (stem item) r meas [] collection))))"

definition from_directory :: "FileSystem \<Rightarrow> string \<Rightarrow> string \<Rightarrow> string \<Rightarrow> string \<Rightarrow> error + DatasetCollection" where
  "from_directory fs p meas m ext =
     (case sorted_iterdir fs p of
        Inl e \<Rightarrow> Inl e
      | Inr items \<Rightarrow> from_directory_loop fs meas m ext items [])"

subsection \<open>analysis.py: colour metrics\<close>

record ColourMetrics =
  rgb :: "real list"
  lab :: "real list"
  xyz :: "real list"
  whiteness :: real
  tint :: real
  lightness :: real
  chroma :: real
  delta_e_value :: real
  delta_c_value :: real

text \<open>
  The \<open>spectrum\<close> argument as a Python value: a sequence of pairs, or a generator
  that would yield them. \<open>np.array(spectrum, dtype=float)\<close> reads a sequence and
  raises TypeError on a generator, which numpy does not iterate.
\<close>

datatype spectrum_arg = Sequence "(real \<times> real) list" | Generator "(real \<times> real) list"

definition np_array_spectrum :: "spectrum_arg \<Rightarrow> error + (real \<times> real) list" where
  "np_array_spectrum arg =
     (case arg of
        Sequence pairs \<Rightarrow> Inr pairs
      | Generator pairs \<Rightarrow>
          Inl (TypeError (''float() argument must be a string or a real number, not ''
                          @ quoted ''generator'')))"

text \<open>
  \<open>spectrum_to_xyz\<close> called with such a value: the check of the package comes first,
  then the conversion, then the function as modelled above on the pairs.
\<close>

definition spectrum_to_xyz_of ::
  "'sd colour_lib option \<Rightarrow> spectrum_arg \<Rightarrow> bool \<Rightarrow> 'sd option
     \<Rightarrow> error + (real list \<times> real list \<times> real list)" where
  "spectrum_to_xyz_of colour arg absorbance illuminant =
     (case colour of
        None \<Rightarrow> Inl (RuntimeError ''The 'colour' package is required for colourimetric computations.'')
      | Some lib \<Rightarrow>
          (case np_array_spectrum arg of
             Inl e \<Rightarrow> Inl e
           | Inr pairs \<Rightarrow> spectrum_to_xyz (Some lib) pairs absorbance illuminant))"

text \<open>
  The two functions of the package that \<open>whiteness_and_tint\<close> calls, again as
  parameters that may raise; \<open>whiteness_CIE2004\<close> returns whiteness and tint.
\<close>

record whiteness_lib =
  XYZ_to_xy :: "real list \<Rightarrow> error + real list"
  whiteness_CIE2004 :: "real list \<Rightarrow> real \<Rightarrow> real list \<Rightarrow> error + real \<times> real"

definition whiteness_and_tint ::
  "'sd colour_lib option \<Rightarrow> whiteness_lib \<Rightarrow> real list \<Rightarrow> real list \<Rightarrow> error + real \<times> real" where
  "whiteness_and_tint colour wl xyz_in reference_xy =
     (case colour of
        None \<Rightarrow> Inl (RuntimeError ''The 'colour' package is required for colourimetric computations.'')
      | Some lib \<Rightarrow>
          (case XYZ_to_xy wl xyz_in of
             Inl e \<Rightarrow> Inl e
           | Inr xy \<Rightarrow>
               if length xyz_in < 2 then Inl (IndexError ''index 1 is out of bounds'')
               else whiteness_CIE2004 wl xy (xyz_in ! 1) reference_xy))"

text \<open>\<open>L, a, b = lab\<close> raises ValueError unless there are three values; \<open>np.hypot\<close>.\<close>

definition lightness_chroma :: "real list \<Rightarrow> error + real \<times> real" where
  "lightness_chroma lab_in =
     (case lab_in of
        [L, a, b] \<Rightarrow> Inr (L, sqrt (a * a + b * b))
      | _ \<Rightarrow> Inl (ValueError ''wrong number of values to unpack''))"

definition compute_colour_metrics ::
  "'sd colour_lib option \<Rightarrow> whiteness_lib \<Rightarrow> spectrum_arg \<Rightarrow> bool \<Rightarrow> 'sd option \<Rightarrow> real list
     \<Rightarrow> error + ColourMetrics" where
  "compute_colour_metrics colour wl spectrum absorbance illuminant ref_lab =
     (case spectrum_to_xyz_of colour spectrum absorbance illuminant of
        Inl e \<Rightarrow> Inl e
      | Inr (rgb_out, lab_out, xyz_out) \<Rightarrow>
          (case whiteness_and_tint colour wl xyz_out [0.3139, 0.3311] of
             Inl e \<Rightarrow> Inl e
           | Inr (w, t) \<Rightarrow>
               (case lightness_chroma lab_out of
                  Inl e \<Rightarrow> Inl e
                | Inr (light, chrom) \<Rightarrow>
                    (case delta_e lab_out ref_lab of
                       Inl e \<Rightarrow> Inl e
                     | Inr de \<Rightarrow>
                         (case delta_c lab_out ref_lab of
                            Inl e \<Rightarrow> Inl e
                          | Inr dc \<Rightarrow>
                              Inr \<lparr>rgb = rgb_out, lab = lab_out, xyz = xyz_out, whiteness = w, tint = t,
                                   lightness = light, chroma = chrom, delta_e_value = de,
                                   delta_c_value = dc\<rparr>)))))"

subsection \<open>pipeline.py: the orchestrator\<close>

record ColourResult =
  name :: string
  metrics :: ColourMetrics
  decolouring_percentage :: real
  white_distance :: real

text \<open>
  The attributes of the pipeline object that loading, grouping and analysis touch
  (\<open>output_dir\<close> and \<open>plot_manager\<close> serve plotting only). What the methods hand to
  \<open>LOGGER\<close> is returned as a list of log records beside the new state.
\<close>

record 'il ColourimetryPipeline =
  config :: "'il NotebookConfig"
  raw_collections :: "(string \<times> DatasetCollection) list"
  all_data :: DatasetCollection
  averaged_data :: DatasetCollection
  groups :: "(string \<times> DatasetCollection) list"
  results :: "(string \<times> ColourResult) list"

datatype log_record = LogWarning string | LogError string

definition pipeline_init :: "'il NotebookConfig \<Rightarrow> 'il ColourimetryPipeline" where
  "pipeline_init cfg =
     \<lparr>config = cfg, raw_collections = [], all_data = [], averaged_data = [], groups = [], results = []\<rparr>"

text \<open>\<open>xs or default\<close> for an optional sequence: \<open>None\<close> and the empty sequence are falsy.\<close>

definition or_default :: "'a list option \<Rightarrow> 'a list \<Rightarrow> 'a list" where
  "or_default xs dflt = (case xs of None \<Rightarrow> dflt | Some ys \<Rightarrow> if ys = [] then dflt else ys)"

text \<open>
  \<open>_build_averaged_dataset\<close>: nothing happens on an empty raw pool; otherwise the
  averaged pool is replaced by \<open>all_data.averaged()\<close> (separator \<open>#\<close>), whose
  ValueError propagates.
\<close>

definition build_averaged_dataset :: "'il ColourimetryPipeline \<Rightarrow> error option \<times> 'il ColourimetryPipeline" where
  "build_averaged_dataset s =
     (if all_data s = [] then (None, s)
      else (case averaged ''#'' (all_data s) of
              Inl e \<Rightarrow> (Some e, s)
            | Inr avg \<Rightarrow> (None, s\<lparr>averaged_data := avg\<rparr>)))"

fun load_loop ::
  "FileSystem \<Rightarrow> DirectoryConfig list \<Rightarrow> 'il ColourimetryPipeline \<Rightarrow> log_record list
     \<Rightarrow> error option \<times> 'il ColourimetryPipeline \<times> log_record list" where
  "load_loop fs [] s lg = (None, s, lg)"
| "load_loop fs (directory # rest) s lg =
     (if \<not> path_exists fs (path directory)
      then load_loop fs rest s
             (lg @ [LogWarning (''Directory '' @ path directory @ '' does not exist; skipping'')])
      else (case from_directory fs (path directory) (dir_measurement directory) (dir_mode directory)
                   (extension directory) of
              Inl e \<Rightarrow> (Some e, s, lg)
            | Inr collection \<Rightarrow>
                load_loop fs rest
                  (s\<lparr>raw_collections := AList.update (dir_name directory) collection (raw_collections s),
                     all_data := extend_with (all_data s) collection\<rparr>) lg))"

definition load_directories ::
  "FileSystem \<Rightarrow> DirectoryConfig list option \<Rightarrow> 'il ColourimetryPipeline
     \<Rightarrow> error option \<times> 'il ColourimetryPipeline \<times> log_record list" where
  "load_directories fs dirs s =
     (case load_loop fs (or_default dirs (directories (config s))) s [] of
        (Some e, s', lg) \<Rightarrow> (Some e, s', lg)
      | (None, s', lg) \<Rightarrow> (case build_averaged_dataset s' of (e, s'') \<Rightarrow> (e, s'', lg)))"

text \<open>\<open>descriptor.split(":", 1)\<close> unpacked into two names: \<open>None\<close> when there is no colon.\<close>

fun split_colon :: "string \<Rightarrow> (string \<times> string) option" where
  "split_colon [] = None"
| "split_colon (c # cs) =
     (if c = CHR '':'' then Some ([], cs)
      else (case split_colon cs of None \<Rightarrow> None | Some (a, b) \<Rightarrow> Some (c # a, b)))"

text \<open>The two inner loops of \<open>build_groups\<close>, over the keys and over the extra assignments.\<close>

fun keys_loop ::
  "DatasetCollection \<Rightarrow> string list \<Rightarrow> DatasetCollection \<Rightarrow> log_record list
     \<Rightarrow> DatasetCollection \<times> log_record list" where
  "keys_loop source_collection [] sub lg = (sub, lg)"
| "keys_loop source_collection (key # ks) sub lg =
     (case map_of source_collection key of
        Some entry \<Rightarrow> keys_loop source_collection ks (AList.update key entry sub) lg
      | None \<Rightarrow> keys_loop source_collection ks sub
                  (lg @ [LogWarning (''Key '' @ key @ '' not found in source collection'')]))"

fun assignments_loop ::
  "(string \<times> DatasetCollection) list \<Rightarrow> (string \<times> string) list \<Rightarrow> DatasetCollection
     \<Rightarrow> log_record list \<Rightarrow> DatasetCollection \<times> log_record list" where
  "assignments_loop collection_lookup [] sub lg = (sub, lg)"
| "assignments_loop collection_lookup ((target_key, descriptor) # rest) sub lg =
     (case split_colon descriptor of
        None \<Rightarrow> assignments_loop collection_lookup rest sub
                  (lg @ [LogError (''Invalid assignment descriptor '' @ quoted descriptor)])
      | Some (source_name, source_key) \<Rightarrow>
          (case (case map_of collection_lookup source_name of
                   None \<Rightarrow> None
                 | Some src \<Rightarrow> map_of src source_key) of
             Some entry \<Rightarrow> assignments_loop collection_lookup rest (AList.update target_key entry sub) lg
           | None \<Rightarrow> assignments_loop collection_lookup rest sub
                       (lg @ [LogWarning (''Assignment '' @ descriptor @ '' -> '' @ target_key
                                          @ '' could not be resolved'')])))"

definition build_subset ::
  "(string \<times> DatasetCollection) list \<Rightarrow> DatasetCollection \<Rightarrow> DatasetGroup \<Rightarrow> log_record list
     \<Rightarrow> DatasetCollection \<times> log_record list" where
  "build_subset collection_lookup source_collection g lg =
     (case keys_loop source_collection (keys g) [] lg of
        (sub, lg') \<Rightarrow> assignments_loop collection_lookup (extra_assignments g) sub lg')"

fun build_groups_loop ::
  "(string \<times> DatasetCollection) list \<Rightarrow> DatasetGroup list \<Rightarrow> 'il ColourimetryPipeline
     \<Rightarrow> log_record list \<Rightarrow> error option \<times> 'il ColourimetryPipeline \<times> log_record list" where
  "build_groups_loop collection_lookup [] s lg = (None, s, lg)"
| "build_groups_loop collection_lookup (g # rest) s lg =
     (case map_of collection_lookup (source g) of
        None \<Rightarrow> (Some (ValueError (''Unknown dataset source '' @ quoted (source g))), s, lg)
      | Some source_collection \<Rightarrow>
          (case build_subset collection_lookup source_collection g lg of
             (sub, lg') \<Rightarrow>
               build_groups_loop collection_lookup rest
                 (s\<lparr>groups := AList.update (group_name g) sub (groups s)\<rparr>) lg'))"

definition collection_lookup_of :: "'il ColourimetryPipeline \<Rightarrow> (string \<times> DatasetCollection) list" where
  "collection_lookup_of s = [(''all'', all_data s), (''averaged'', averaged_data s)]"

definition build_groups ::
  "DatasetGroup list option \<Rightarrow> 'il ColourimetryPipeline
     \<Rightarrow> error option \<times> 'il ColourimetryPipeline \<times> log_record list" where
  "build_groups gs s =
     build_groups_loop (collection_lookup_of s) (or_default gs (config_groups (config s))) s []"

text \<open>
  The illuminant argument of \<open>analyse_group\<close> is a name looked up in the configured
  table, or a spectral distribution passed as it is.
\<close>

datatype 'il illuminant_arg = ByName string | Direct 'il

text \<open>
  The analysis methods take the metric computation as the parameter \<open>cm\<close>, so that
  what they do with a result is stated for every such function; the repository's own
  is \<open>compute_colour_metrics\<close> above. \<open>as_pairs\<close> is a generator function, so what the
  methods hand to \<open>cm\<close> is a generator of the pairs; for the two quantities they
  ask for, the lookup in \<open>as_pairs\<close> succeeds. \<open>blackbody_illuminant\<close> is the
  parameter \<open>bb\<close>. The loop returns the local \<open>results\<close> dictionary and
  \<open>self.results\<close> as they stand when it ends or raises.
\<close>

definition colour_result :: "string \<Rightarrow> ColourMetrics \<Rightarrow> ColourResult" where
  "colour_result key m =
     (case compute_colour_distances (rgb m) of
        (decolouring, white_dist) \<Rightarrow>
          \<lparr>name = key, metrics = m, decolouring_percentage = decolouring, white_distance = white_dist\<rparr>)"

fun analyse_loop ::
  "(spectrum_arg \<Rightarrow> bool \<Rightarrow> 'il \<Rightarrow> real list \<Rightarrow> error + ColourMetrics)
     \<Rightarrow> bool \<Rightarrow> 'il \<Rightarrow> real list \<Rightarrow> DatasetCollection
     \<Rightarrow> (string \<times> ColourResult) list \<Rightarrow> (string \<times> ColourResult) list
     \<Rightarrow> error option \<times> (string \<times> ColourResult) list \<times> (string \<times> ColourResult) list" where
  "analyse_loop cm absorbance illuminant_sd ref [] local self_results = (None, local, self_results)"
| "analyse_loop cm absorbance illuminant_sd ref ((key, entry) # rest) local self_results =
     (case as_pairs (entry_record entry) (if absorbance then ''absorbance'' else ''transmittance'') of
        Inl e \<Rightarrow> (Some e, local, self_results)
      | Inr spectrum \<Rightarrow>
          (case cm (Generator spectrum) absorbance illuminant_sd ref of
             Inl e \<Rightarrow> (Some e, local, self_results)
           | Inr m \<Rightarrow>
               analyse_loop cm absorbance illuminant_sd ref rest
                 (AList.update key (colour_result key m) local)
                 (AList.update key (colour_result key m) self_results)))"

definition analyse_group ::
  "(spectrum_arg \<Rightarrow> bool \<Rightarrow> 'il \<Rightarrow> real list \<Rightarrow> error + ColourMetrics)
     \<Rightarrow> 'il ColourimetryPipeline \<Rightarrow> string \<Rightarrow> 'il illuminant_arg \<Rightarrow> bool \<Rightarrow> real list option
     \<Rightarrow> (error + (string \<times> ColourResult) list) \<times> 'il ColourimetryPipeline" where
  "analyse_group cm s gname illuminant absorbance ref_lab =
     (case map_of (groups s) gname of
        None \<Rightarrow> (Inl (KeyError (''Group '' @ quoted gname @ '' has not been built'')), s)
      | Some grp \<Rightarrow>
          (let ref = or_default ref_lab (reference_lab (config s))
           in case (case illuminant of
                      ByName nm \<Rightarrow>
                        (case map_of (illuminants (config s)) nm of
                           None \<Rightarrow> Inl (KeyError (''Illuminant '' @ quoted nm @ '' not defined''))
                         | Some sd \<Rightarrow> Inr sd)
                    | Direct sd \<Rightarrow> Inr sd) of
                Inl e \<Rightarrow> (Inl e, s)
              | Inr illuminant_sd \<Rightarrow>
                  (case analyse_loop cm absorbance illuminant_sd ref grp [] (results s) of
                     (Some e, local, self_results) \<Rightarrow> (Inl e, s\<lparr>results := self_results\<rparr>)
                   | (None, local, self_results) \<Rightarrow> (Inr local, s\<lparr>results := self_results\<rparr>))))"



subsection \<open>Vocabulary for the theorems on the orchestrator\<close>



text \<open>
  A sequence of dictionary stores \<open>d[k] = v\<close>, in order.
\<close>

definition dict_update_all :: "('k \<times> 'v) list \<Rightarrow> ('k \<times> 'v) list \<Rightarrow> ('k \<times> 'v) list" where
  "dict_update_all us d = fold (\<lambda>(k, v) acc. AList.update k v acc) us d"

text \<open>
  What a run of the loop of \<open>load_directories\<close>, and of \<open>build_groups\<close>, stores: the
  exception that ends it if any, the stores into \<open>raw_collections\<close> (into \<open>groups\<close>)
  in order, and the log. Neither depends on the dictionaries being stored into.
\<close>

fun load_plan ::
  "FileSystem \<Rightarrow> DirectoryConfig list \<Rightarrow> log_record list
     \<Rightarrow> error option \<times> (string \<times> DatasetCollection) list \<times> log_record list" where
  "load_plan fs [] lg = (None, [], lg)"
| "load_plan fs (directory # rest) lg =
     (if \<not> path_exists fs (path directory)
      then load_plan fs rest
             (lg @ [LogWarning (''Directory '' @ path directory @ '' does not exist; skipping'')])
      else (case from_directory fs (path directory) (dir_measurement directory) (dir_mode directory)
                   (extension directory) of
              Inl e \<Rightarrow> (Some e, [], lg)
            | Inr collection \<Rightarrow>
                (case load_plan fs rest lg of
                   (e, us, lg') \<Rightarrow> (e, (dir_name directory, collection) # us, lg'))))"

fun groups_plan ::
  "(string \<times> DatasetCollection) list \<Rightarrow> DatasetGroup list \<Rightarrow> log_record list
     \<Rightarrow> error option \<times> (string \<times> DatasetCollection) list \<times> log_record list" where
  "groups_plan lk [] lg = (None, [], lg)"
| "groups_plan lk (g # rest) lg =
     (case map_of lk (source g) of
        None \<Rightarrow> (Some (ValueError (''Unknown dataset source '' @ quoted (source g))), [], lg)
      | Some source_collection \<Rightarrow>
          (case build_subset lk source_collection g lg of
             (sub, lg') \<Rightarrow>
               (case groups_plan lk rest lg' of
                  (e, us, lg'') \<Rightarrow> (e, (group_name g, sub) # us, lg''))))"

text \<open>
  The entry an extra-assignment descriptor \<open>pool:key\<close> resolves to: \<open>None\<close> when the
  descriptor has no colon, names no pool, or names a key its pool does not hold.
\<close>

definition resolve :: "(string \<times> DatasetCollection) list \<Rightarrow> string \<Rightarrow> DatasetEntry option" where
  "resolve lk descriptor =
     (case split_colon descriptor of
        None \<Rightarrow> None
      | Some (source_name, source_key) \<Rightarrow>
          (case map_of lk source_name of None \<Rightarrow> None | Some src \<Rightarrow> map_of src source_key))"

text \<open>
  Worked examples: a pipeline whose two pools hold one entry \<open>a\<close>, a group asking for
  \<open>a\<close>, for a key the pool lacks and for an assignment whose descriptor has no colon,
  the state and log that building this group leaves, and a result of the metric
  computation.
\<close>

definition example_config :: "string NotebookConfig" where
  "example_config = \<lparr>directories = [], config_groups = [], illuminants = [(''D65'', ''d65 table'')],
                      reference_lab = [100, 0, 0]\<rparr>"

definition example_pipeline :: "string ColourimetryPipeline" where
  "example_pipeline =
     (pipeline_init example_config)
       \<lparr>all_data := [(''a'', example_entry [400] [1] [1 / 10])],
        averaged_data := [(''a'', example_entry [400] [1] [1 / 10])]\<rparr>"

definition example_group :: DatasetGroup where
  "example_group = \<lparr>group_name = ''G'', source = ''all'', keys = [''a'', ''missing''],
                     extra_assignments = [(''x'', ''nocolon'')]\<rparr>"

definition example_built :: "string ColourimetryPipeline" where
  "example_built = example_pipeline\<lparr>groups := [(''G'', [(''a'', example_entry [400] [1] [1 / 10])])]\<rparr>"

definition example_log :: "log_record list" where
  "example_log = [LogWarning ''Key missing not found in source collection'',
       LogError (''Invalid assignment descriptor '' @ quoted ''nocolon'')]"


text \<open>
  A file system in which every directory but \<open>gone\<close> exists and holds a text file
  and one spectrum file named after the directory, two directory descriptors and
  empty groups over it, and the pipeline as constructed.
\<close>

definition example_fs :: FileSystem where
  "example_fs =
     \<lparr>path_exists = (\<lambda>p. p \<noteq> ''gone''),
      sorted_iterdir = (\<lambda>p. Inr [\<lparr>item_path = p @ ''/notes.txt'', stem = ''notes'', item_suffix = ''.txt''\<rparr>,
                                  \<lparr>item_path = p @ ''/'' @ p @ ''.SP'', stem = p, item_suffix = ''.SP''\<rparr>]),
      spc_reader = Some (\<lambda>file. Inr \<lparr>wavelength = [400], amplitudes = [1]\<rparr>)\<rparr>"

definition example_dir :: "string \<Rightarrow> string \<Rightarrow> DirectoryConfig" where
  "example_dir nm p = \<lparr>dir_name = nm, path = p, dir_mode = ''a'', dir_measurement = ''transmittance'',
                       extension = ''.sp'', replicate_suffix = ''#''\<rparr>"

definition example_named_group :: "string \<Rightarrow> DatasetGroup" where
  "example_named_group nm = \<lparr>group_name = nm, source = ''all'', keys = [], extra_assignments = []\<rparr>"

definition empty_pipeline :: "string ColourimetryPipeline" where
  "empty_pipeline = pipeline_init example_config"

definition entry1 :: DatasetEntry where
  "entry1 = example_entry [400] [1] [1 / 10]"





definition example_colour :: "string colour_lib" where
  "example_colour = \<lparr>SpectralDistribution = (\<lambda>d. Inr ''transmittance''),
                      sd_to_XYZ = (\<lambda>sd illuminant. Inr [95, 100, 108]),
                      XYZ_to_Lab = (\<lambda>xyz. Inr [100, 0, 0]),
                      XYZ_to_sRGB = (\<lambda>xyz. Inr [1, 1, 1])\<rparr>"

definition example_whiteness :: whiteness_lib where
  "example_whiteness = \<lparr>XYZ_to_xy = (\<lambda>xyz. Inr [3 / 10, 3 / 10]),
                         whiteness_CIE2004 = (\<lambda>xy Y reference_xy. Inr (100 * Y, 0))\<rparr>"

section \<open>Theorems\<close>

subsection \<open>Colour differences\<close>

lemma np_sub_swap_norm:
  "np_sub a b = Inr d \<Longrightarrow> \<exists>d'. np_sub b a = Inr d' \<and> np_linalg_norm d' = np_linalg_norm d"
proof -
  assume h: "np_sub a b = Inr d"
  have sq: "\<And>x y :: real. (x - y) * (x - y) = (y - x) * (y - x)"
    by (simp add: algebra_simps)
  have eqlen: "length a = length b \<Longrightarrow>
      map (\<lambda>x. x * x) (map2 (-) b a) = map (\<lambda>x. x * x) (map2 (-) a b)" for a b :: "real list"
  proof (induction a arbitrary: b)
    case Nil
    then show ?case by simp
  next
    case (Cons x xs)
    then obtain y ys where "b = y # ys" by (cases b) auto
    with Cons show ?case by (simp add: sq)
  qed
  show ?thesis
  proof (cases "length a = length b")
    case True
    with h eqlen [OF True] show ?thesis
      by (auto simp: np_sub_def np_linalg_norm_def)
  next
    case False
    with h show ?thesis
      by (auto simp: np_sub_def np_linalg_norm_def o_def sq split: if_splits)
  qed
qed

lemma np_sub_error_swap:
  "np_sub a b = Inl e \<Longrightarrow> np_sub b a = Inl e"
  by (auto simp: np_sub_def split: if_splits)

lemma delta_e_commute: "delta_e a b = delta_e b a"
proof (cases "np_sub a b")
  case (Inl e)
  then show ?thesis
    using np_sub_error_swap [OF Inl] by (simp add: delta_e_def)
next
  case (Inr d)
  then show ?thesis
    using np_sub_swap_norm [OF Inr] by (auto simp: delta_e_def)
qed

text \<open>
  Claim C7. For all L*a*b* triples, and indeed for all sequences, \<open>delta_e\<close> is
  symmetric; on triples it is the Euclidean distance in the full L*a*b* space, and
  \<open>delta_c\<close> is the Euclidean distance of the \<open>(a*, b*)\<close> components, which is
  \<open>delta_e\<close> of the two-dimensional projections.
\<close>

theorem delta_e_delta_c_euclidean:
  "delta_e A B = delta_e B A
   \<and> delta_e [L1, a1, b1] [L2, a2, b2]
       = Inr (sqrt ((L1 - L2)\<^sup>2 + (a1 - a2)\<^sup>2 + (b1 - b2)\<^sup>2))
   \<and> delta_c [L1, a1, b1] [L2, a2, b2] = Inr (sqrt ((a1 - a2)\<^sup>2 + (b1 - b2)\<^sup>2))
   \<and> delta_c [L1, a1, b1] [L2, a2, b2] = delta_e [a1, b1] [a2, b2]"
  by (simp add: delta_e_commute)
     (simp add: delta_e_def delta_c_def np_sub_def np_linalg_norm_def slice_1_3_def power2_eq_square)

subsection \<open>Derived scores\<close>

text \<open>
  Claim C8. The derived scores follow the fixed formulas
  decolouring = (sum(rgb) - sum(reference_rgb)) / (3 - sum(reference_rgb)) * 100 with
  reference_rgb = (68, 77, 55) / 255, and white_distance = (1 - mean(rgb)) * 100;
  rgb = (1, 1, 1) gives decolouring 100 and white distance 0.
\<close>

theorem compute_colour_distances_formulas:
  "compute_colour_distances [r, g, b] =
     ((r + g + b - (68 / 255 + 77 / 255 + 55 / 255)) / (3 - (68 / 255 + 77 / 255 + 55 / 255)) * 100,
      (1 - (r + g + b) / 3) * 100)
   \<and> compute_colour_distances [1, 1, 1] = (100, 0)"
  by (simp add: compute_colour_distances_def np_mean_def Let_def add_divide_distrib)

subsection \<open>Hexadecimal rendering\<close>

lemma py_round_near: "\<bar>of_int (py_round x) - x\<bar> \<le> 1 / 2"
  unfolding py_round_def Let_def by (auto simp: abs_le_iff)

lemma py_round_between:
  "of_int lo \<le> x \<Longrightarrow> x \<le> of_int hi \<Longrightarrow> lo \<le> py_round x \<and> py_round x \<le> hi"
  unfolding py_round_def Let_def
  by (auto simp: le_floor_iff floor_le_iff) linarith+

lemma py_round_of_int: "py_round (of_int n) = n"
  by (simp add: py_round_def)

lemma hex_digits_byte:
  "n < 256 \<Longrightarrow> replicate (2 - length (hex_digits n)) CHR ''0'' @ hex_digits n = two_hex_digits n"
proof (cases "n < 16")
  case True
  then show ?thesis
    by (simp add: hex_digits.simps [of n] two_hex_digits_def hex_char_def)
next
  case False
  assume "n < 256"
  then have "n div 16 < 16" by simp
  with False show ?thesis
    by (simp add: hex_digits.simps [of n] hex_digits.simps [of "n div 16"] two_hex_digits_def)
qed

lemma format_02x_byte: "0 \<le> i \<Longrightarrow> i \<le> 255 \<Longrightarrow> format_02x i = two_hex_digits (nat i)"
  using hex_digits_byte [of "nat i"] by (simp add: format_02x_def Let_def)

lemma channel_byte_range: "0 \<le> channel_byte v \<and> channel_byte v \<le> 255"
  using py_round_between [of 0 "min (max v 0) 1 * 255" 255]
  by (simp add: channel_byte_def min_def max_def split: if_splits)

lemma channel_byte_near: "\<bar>of_int (channel_byte v) - min (max v 0) 1 * 255\<bar> \<le> 1 / 2"
  unfolding channel_byte_def by (rule py_round_near)

lemma rgb_to_hex_triple:
  "rgb_to_hex [r, g, b] =
     Inr (''#'' @ two_hex_digits (nat (channel_byte r)) @ two_hex_digits (nat (channel_byte g))
              @ two_hex_digits (nat (channel_byte b)))"
  using channel_byte_range [of r] channel_byte_range [of g] channel_byte_range [of b]
  by (simp add: rgb_to_hex_def np_clip_def format_02x_byte channel_byte_def)

lemma channel_byte_ends: "channel_byte 1 = 255" "channel_byte 0 = 0"
  using py_round_of_int [of 255] py_round_of_int [of 0] by (simp_all add: channel_byte_def)

text \<open>
  Claim C9. For every rgb triple, \<open>rgb_to_hex\<close> clips each channel to \<open>[0, 1]\<close>,
  scales it by 255, rounds it to a nearest integer (which lies in \<open>0..255\<close>) and
  renders it as two lowercase hexadecimal digits after a leading \<open>#\<close>;
  \<open>(1, 0, 0)\<close> gives \<open>#ff0000\<close> and \<open>(0, 0, 0)\<close> gives \<open>#000000\<close>.
\<close>

theorem rgb_to_hex_renders:
  "rgb_to_hex [r, g, b] =
     Inr (''#'' @ two_hex_digits (nat (channel_byte r)) @ two_hex_digits (nat (channel_byte g))
              @ two_hex_digits (nat (channel_byte b)))
   \<and> 0 \<le> channel_byte v \<and> channel_byte v \<le> 255
   \<and> \<bar>of_int (channel_byte v) - min (max v 0) 1 * 255\<bar> \<le> 1 / 2
   \<and> two_hex_digits n = [''0123456789abcdef'' ! (n div 16), ''0123456789abcdef'' ! (n mod 16)]
   \<and> rgb_to_hex [1, 0, 0] = Inr ''#ff0000''
   \<and> rgb_to_hex [0, 0, 0] = Inr ''#000000''"
  using channel_byte_range [of v] channel_byte_near [of v]
  by (simp add: rgb_to_hex_triple channel_byte_ends two_hex_digits_def hex_char_def)

subsection \<open>The parser: filtering and sorting\<close>

lemma upt_small: "[0..<3] = [0, 1, 2]" "[0..<2] = [0, 1]" "[0..<1] = [0]"
  by (simp_all add: upt_rec)

lemma mask_map_same: "np_mask (map P ws) ws = filter P ws"
  unfolding np_mask_def by (induction ws) auto

lemma mask_map_commute: "np_mask sel (map f xs) = map f (np_mask sel xs)"
  unfolding np_mask_def
  by (induction sel xs rule: list_induct2') auto

lemma set_np_argsort: "set (np_argsort xs) = {0..<length xs}"
  by (simp add: np_argsort_def)

lemma mset_np_argsort: "mset (np_argsort xs) = mset [0..<length xs]"
  by (simp add: np_argsort_def)

lemma sorted_take_idx_argsort: "sorted (take_idx xs (np_argsort xs))"
  unfolding take_idx_def np_argsort_def by (rule sorted_sort_key)

lemma take_idx_map: "\<forall>i\<in>set idx. i < length xs \<Longrightarrow> take_idx (map f xs) idx = map f (take_idx xs idx)"
  by (simp add: take_idx_def)

lemma mset_take_idx_argsort:
  "length ys = length xs \<Longrightarrow> mset (take_idx ys (np_argsort xs)) = mset ys"
proof -
  assume len: "length ys = length xs"
  have "mset (take_idx ys (np_argsort xs)) = image_mset (\<lambda>i. ys ! i) (mset (np_argsort xs))"
    by (simp add: take_idx_def)
  also have "\<dots> = image_mset (\<lambda>i. ys ! i) (mset [0..<length ys])"
    by (simp add: mset_np_argsort len)
  also have "\<dots> = mset (map (\<lambda>i. ys ! i) [0..<length ys])"
    by simp
  also have "\<dots> = mset ys"
    by (simp add: map_nth)
  finally show ?thesis .
qed

lemma zip_take_idx:
  "zip (take_idx xs idx) (take_idx ys idx) = take_idx (zip xs ys) idx"
  if "\<forall>i\<in>set idx. i < length xs \<and> i < length ys"
  using that by (induction idx) (simp_all add: take_idx_def)

lemma mask_zip:
  "length sel = length xs \<Longrightarrow> length xs = length ys \<Longrightarrow>
   np_mask sel (zip xs ys) = zip (np_mask sel xs) (np_mask sel ys)"
  unfolding np_mask_def
  by (induction sel xs ys rule: list_induct3) auto

lemma mask_map_fst:
  "length ws = length xs \<Longrightarrow>
   np_mask (map P ws) (zip ws xs) = filter (\<lambda>(w, x). P w) (zip ws xs)"
  unfolding np_mask_def
  by (induction ws xs rule: list_induct2) auto

lemma length_mask: "length sel = length xs \<Longrightarrow> length (np_mask sel xs) = length (filter id sel)"
  unfolding np_mask_def
  by (induction sel xs rule: list_induct2) auto

lemma length_mode_quantities:
  "length (fst (mode_quantities m amps)) = length amps \<and> length (snd (mode_quantities m amps)) = length amps"
  by (simp add: mode_quantities_def)

lemma valid_wavelength_iff: "valid_wavelength w \<longleftrightarrow> w \<in> \<int> \<and> 250 \<le> w \<and> w \<le> 800"
  using frac_eq_0_iff [of w] by (simp add: valid_wavelength_def frac_def)

lemma parse_result:
  assumes rd: "rd (filename p) = Inr sp"
    and len: "length (amplitudes sp) = length (wavelength sp)"
  shows "parse (Some rd) p =
     Inr \<lparr>wavelengths = take_idx (np_mask (map valid_wavelength (wavelength sp)) (wavelength sp))
             (np_argsort (np_mask (map valid_wavelength (wavelength sp)) (wavelength sp))),
          absorbances = take_idx (np_mask (map valid_wavelength (wavelength sp)) (fst (mode_quantities (mode p) (amplitudes sp))))
             (np_argsort (np_mask (map valid_wavelength (wavelength sp)) (wavelength sp))),
          transmittances = take_idx (np_mask (map valid_wavelength (wavelength sp)) (snd (mode_quantities (mode p) (amplitudes sp))))
             (np_argsort (np_mask (map valid_wavelength (wavelength sp)) (wavelength sp)))\<rparr>"
  using rd len by (simp add: parse_def Let_def split: prod.splits)

lemma parse_sorted_filtered:
  assumes rd: "rd (filename p) = Inr sp"
    and len: "length (amplitudes sp) = length (wavelength sp)"
  shows "\<exists>r. parse (Some rd) p = Inr r
     \<and> sorted (wavelengths r)
     \<and> mset (wavelengths r) = mset (filter valid_wavelength (wavelength sp))
     \<and> mset (zip (wavelengths r) (zip (absorbances r) (transmittances r)))
         = mset (filter (\<lambda>(w, a, t). valid_wavelength w)
              (zip (wavelength sp)
                 (zip (fst (mode_quantities (mode p) (amplitudes sp)))
                      (snd (mode_quantities (mode p) (amplitudes sp))))))"
proof -
  define ws where "ws = wavelength sp"
  define A where "A = fst (mode_quantities (mode p) (amplitudes sp))"
  define T where "T = snd (mode_quantities (mode p) (amplitudes sp))"
  define sel where "sel = map valid_wavelength ws"
  define idx where "idx = np_argsort (np_mask sel ws)"
  have lA: "length A = length ws" and lT: "length T = length ws"
    using len length_mode_quantities [of "mode p" "amplitudes sp"] by (simp_all add: A_def T_def ws_def)
  have lsel: "length sel = length ws" by (simp add: sel_def)
  have lmw: "length (np_mask sel ws) = length (filter id sel)"
    and lmA: "length (np_mask sel A) = length (filter id sel)"
    and lmT: "length (np_mask sel T) = length (filter id sel)"
    using lsel lA lT by (simp_all add: length_mask)
  have inrange: "\<forall>i\<in>set idx. i < length (np_mask sel ws)"
    by (simp add: idx_def set_np_argsort)
  have res: "parse (Some rd) p =
      Inr \<lparr>wavelengths = take_idx (np_mask sel ws) idx, absorbances = take_idx (np_mask sel A) idx,
           transmittances = take_idx (np_mask sel T) idx\<rparr>"
    using parse_result [of rd p sp] rd len by (simp add: ws_def A_def T_def sel_def idx_def)
  have s: "sorted (take_idx (np_mask sel ws) idx)"
    unfolding idx_def by (rule sorted_take_idx_argsort)
  have m1: "mset (take_idx (np_mask sel ws) idx) = mset (filter valid_wavelength ws)"
    unfolding idx_def by (simp add: mset_take_idx_argsort sel_def mask_map_same)
  have z: "zip (take_idx (np_mask sel ws) idx) (zip (take_idx (np_mask sel A) idx) (take_idx (np_mask sel T) idx))
        = take_idx (zip (np_mask sel ws) (zip (np_mask sel A) (np_mask sel T))) idx"
    using inrange lmw lmA lmT by (simp add: zip_take_idx)
  have zz: "zip (np_mask sel ws) (zip (np_mask sel A) (np_mask sel T)) = np_mask sel (zip ws (zip A T))"
    using lsel lA lT by (simp add: mask_zip)
  have m2: "mset (take_idx (np_mask sel (zip ws (zip A T))) idx) = mset (np_mask sel (zip ws (zip A T)))"
    unfolding idx_def
    by (rule mset_take_idx_argsort) (use lsel lA lT lmw in \<open>simp add: length_mask\<close>)
  have f: "np_mask sel (zip ws (zip A T)) = filter (\<lambda>(w, a, t). valid_wavelength w) (zip ws (zip A T))"
    unfolding sel_def using lA lT by (simp add: mask_map_fst case_prod_unfold)
  show ?thesis
    using res s m1 z zz m2 f by (simp add: ws_def A_def T_def)
qed

lemma parse_band_example:
  "parse (Some (\<lambda>file. Inr \<lparr>wavelength = [249, 250, 400, 800, 801], amplitudes = [1, 2, 3, 4, 5]\<rparr>))
        \<lparr>filename = ''sample.sp'', mode = ''A''\<rparr>
      = Inr \<lparr>wavelengths = [250, 400, 800], absorbances = [2, 3, 4],
             transmittances = [10 powr (- 2), 10 powr (- 3), 10 powr (- 4)]\<rparr>"
  by (simp add: parse_def mode_quantities_def valid_wavelength_def np_mask_def np_argsort_def
      take_idx_def Let_def upt_small)

text \<open>
  Claim C5. \<open>parse\<close> keeps exactly the samples whose wavelength is integer-valued and
  lies in \<open>[250, 800]\<close>, each with its absorbance and transmittance, returns them
  sorted ascending by wavelength and drops all others; wavelengths
  \<open>249, 250, 400, 800, 801\<close> leave exactly \<open>250, 400, 800\<close>.
\<close>

theorem parse_keeps_valid_band_sorted:
  "(rd (filename p) = Inr sp \<longrightarrow> length (amplitudes sp) = length (wavelength sp) \<longrightarrow>
      (\<exists>r. parse (Some rd) p = Inr r
         \<and> sorted (wavelengths r)
         \<and> mset (wavelengths r) = mset (filter valid_wavelength (wavelength sp))
         \<and> mset (zip (wavelengths r) (zip (absorbances r) (transmittances r)))
             = mset (filter (\<lambda>(w, a, t). valid_wavelength w)
                  (zip (wavelength sp)
                     (zip (fst (mode_quantities (mode p) (amplitudes sp)))
                          (snd (mode_quantities (mode p) (amplitudes sp))))))))
   \<and> (valid_wavelength w \<longleftrightarrow> w \<in> \<int> \<and> 250 \<le> w \<and> w \<le> 800)
   \<and> parse (Some (\<lambda>file. Inr \<lparr>wavelength = [249, 250, 400, 800, 801], amplitudes = [1, 2, 3, 4, 5]\<rparr>))
        \<lparr>filename = ''sample.sp'', mode = ''A''\<rparr>
      = Inr \<lparr>wavelengths = [250, 400, 800], absorbances = [2, 3, 4],
             transmittances = [10 powr (- 2), 10 powr (- 3), 10 powr (- 4)]\<rparr>"
proof (intro conjI impI)
  assume "rd (filename p) = Inr sp" "length (amplitudes sp) = length (wavelength sp)"
  then show "\<exists>r. parse (Some rd) p = Inr r
         \<and> sorted (wavelengths r)
         \<and> mset (wavelengths r) = mset (filter valid_wavelength (wavelength sp))
         \<and> mset (zip (wavelengths r) (zip (absorbances r) (transmittances r)))
             = mset (filter (\<lambda>(w, a, t). valid_wavelength w)
                  (zip (wavelength sp)
                     (zip (fst (mode_quantities (mode p) (amplitudes sp)))
                          (snd (mode_quantities (mode p) (amplitudes sp))))))"
    by (rule parse_sorted_filtered)
next
  show "valid_wavelength w \<longleftrightarrow> w \<in> \<int> \<and> 250 \<le> w \<and> w \<le> 800"
    by (rule valid_wavelength_iff)
next
  show "parse (Some (\<lambda>file. Inr \<lparr>wavelength = [249, 250, 400, 800, 801], amplitudes = [1, 2, 3, 4, 5]\<rparr>))
        \<lparr>filename = ''sample.sp'', mode = ''A''\<rparr>
      = Inr \<lparr>wavelengths = [250, 400, 800], absorbances = [2, 3, 4],
             transmittances = [10 powr (- 2), 10 powr (- 3), 10 powr (- 4)]\<rparr>"
    by (rule parse_band_example)
qed

text \<open>
  The theorem at an unsorted acquisition in transmittance mode, with one wavelength
  that is not integer-valued.
\<close>

theorem parse_keeps_valid_band_sorted_witness:
  "\<exists>r. parse (Some (\<lambda>file. Inr \<lparr>wavelength = [801, 400, 249, 800, 250, 300.5],
                                    amplitudes = [1, 2, 3, 4, 5, 6]\<rparr>))
          \<lparr>filename = ''sample.sp'', mode = ''T''\<rparr> = Inr r
       \<and> sorted (wavelengths r)
       \<and> mset (wavelengths r) = mset [400, 800, 250]"
  using parse_keeps_valid_band_sorted
    [of "\<lambda>file. Inr \<lparr>wavelength = [801, 400, 249, 800, 250, 300.5], amplitudes = [1, 2, 3, 4, 5, 6]\<rparr>"
        "\<lparr>filename = ''sample.sp'', mode = ''T''\<rparr>"
        "\<lparr>wavelength = [801, 400, 249, 800, 250, 300.5], amplitudes = [1, 2, 3, 4, 5, 6]\<rparr>" 0]
  by (simp add: valid_wavelength_def) blast

subsection \<open>Replicate averaging\<close>

lemma log10_floor_value: "log 10 (1 / 1000000000000) = - 12"
proof -
  have "(1 / 1000000000000 :: real) = 10 powr (- 12)"
    by (simp add: powr_minus_divide)
  then show ?thesis
    by (simp only: log_powr_cancel)
qed

lemma powr_log_clip: "10 powr log 10 (np_clip_lo t (1 / 10 ^ 12)) = max t (1 / 10 ^ 12)"
proof -
  have "0 < max t (1 / 10 ^ 12)" by (simp add: max_def)
  then show ?thesis by (simp add: np_clip_lo_def del: power_numeral)
qed

lemma map_of_fold_group:
  "map_of (fold (\<lambda>(key, entry) grouped.
             AList.map_default (key_root suffix key) [entry] (\<lambda>es. es @ [entry]) grouped) c acc) r
   = (if replicates suffix c r = [] then map_of acc r
      else Some ((case map_of acc r of None \<Rightarrow> [] | Some l \<Rightarrow> l) @ replicates suffix c r))"
proof (induction c arbitrary: acc)
  case Nil
  then show ?case by (simp add: replicates_def)
next
  case (Cons x c)
  obtain key entry where x: "x = (key, entry)" by (cases x)
  show ?case
    unfolding x
    by (simp add: Cons.IH map_of_map_default replicates_def split: option.splits)
qed

lemma map_of_group_by_root:
  "map_of (group_by_root suffix c) r
   = (if replicates suffix c r = [] then None else Some (replicates suffix c r))"
  unfolding group_by_root_def by (simp add: map_of_fold_group)

lemma distinct_fold_group:
  "distinct (map fst acc) \<Longrightarrow>
   distinct (map fst (fold (\<lambda>(key, entry) grouped.
             AList.map_default (key_root suffix key) [entry] (\<lambda>es. es @ [entry]) grouped) c acc))"
  by (induction c arbitrary: acc) (auto simp: distinct_map_default)

lemma distinct_group_by_root: "distinct (map fst (group_by_root suffix c))"
  unfolding group_by_root_def by (rule distinct_fold_group) simp

lemma group_by_root_member:
  "(r, es) \<in> set (group_by_root suffix c) \<Longrightarrow> es = replicates suffix c r \<and> es \<noteq> []"
proof -
  assume "(r, es) \<in> set (group_by_root suffix c)"
  then have "map_of (group_by_root suffix c) r = Some es"
    using distinct_group_by_root by simp
  then show ?thesis
    by (simp add: map_of_group_by_root split: if_splits)
qed

lemma averaged_loop_keeps:
  "averaged_loop g acc = Inr out \<Longrightarrow> r \<notin> fst ` set g \<Longrightarrow> map_of out r = map_of acc r"
proof (induction g acc rule: averaged_loop.induct)
  case (1 acc)
  then show ?case by simp
next
  case (2 rt entries rest acc)
  then show ?case
    by (auto simp: update_conv' split: if_splits sum.splits)
qed

lemma averaged_loop_entry:
  "averaged_loop g acc = Inr out \<Longrightarrow> distinct (map fst g) \<Longrightarrow> (r, es) \<in> set g \<Longrightarrow>
   (if length es = 1 then map_of out r = Some (hd es)
    else \<exists>avg. average_entries es = Inr avg \<and> map_of out r = Some avg)"
proof (induction g acc rule: averaged_loop.induct)
  case (1 acc)
  then show ?case by simp
next
  case (2 rt entries rest acc)
  show ?case
  proof (cases "(r, es) = (rt, entries)")
    case True
    then have notin: "r \<notin> fst ` set rest" using "2.prems"(2) by auto
    show ?thesis
    proof (cases "length entries = 1")
      case l1: True
      then have "averaged_loop rest (AList.update rt (hd entries) acc) = Inr out"
        using "2.prems"(1) by simp
      from averaged_loop_keeps [OF this notin] True l1 show ?thesis
        by (simp add: update_conv')
    next
      case l2: False
      then obtain avg where a: "average_entries entries = Inr avg"
        and rest: "averaged_loop rest (AList.update rt avg acc) = Inr out"
        using "2.prems"(1) by (auto split: sum.splits)
      from averaged_loop_keeps [OF rest notin] True l2 a show ?thesis
        by (simp add: update_conv')
    qed
  next
    case False
    then have mem: "(r, es) \<in> set rest" using "2.prems"(3) by auto
    have d: "distinct (map fst rest)" using "2.prems"(2) by simp
    show ?thesis
    proof (cases "length entries = 1")
      case l1: True
      then have "averaged_loop rest (AList.update rt (hd entries) acc) = Inr out"
        using "2.prems"(1) by simp
      from "2.IH"(1) [OF l1 this d mem] show ?thesis .
    next
      case l2: False
      then obtain avg where a: "average_entries entries = Inr avg"
        and rest: "averaged_loop rest (AList.update rt avg acc) = Inr out"
        using "2.prems"(1) by (auto split: sum.splits)
      from "2.IH"(2) [OF l2 a rest d mem] show ?thesis .
    qed
  qed
qed

lemma averaged_loop_distinct:
  "averaged_loop g acc = Inr out \<Longrightarrow> distinct (map fst acc) \<Longrightarrow> distinct (map fst out)"
proof (induction g acc rule: averaged_loop.induct)
  case (1 acc)
  then show ?case by simp
next
  case (2 rt entries rest acc)
  then show ?case
    by (auto simp: distinct_update split: if_splits sum.splits)
qed

lemma averaged_loop_total:
  "(\<And>r es. (r, es) \<in> set g \<Longrightarrow> length es = 1 \<or> (\<exists>avg. average_entries es = Inr avg)) \<Longrightarrow>
   \<exists>out. averaged_loop g acc = Inr out"
proof (induction g acc rule: averaged_loop.induct)
  case (1 acc)
  then show ?case by simp
next
  case (2 rt entries rest acc)
  have here: "length entries = 1 \<or> (\<exists>avg. average_entries entries = Inr avg)"
    using "2.prems" [of rt entries] by simp
  have rest: "length es = 1 \<or> (\<exists>avg. average_entries es = Inr avg)"
    if "(r, es) \<in> set rest" for r es
    using "2.prems" [of r es] that by simp
  show ?case
  proof (cases "length entries = 1")
    case True
    with "2.IH"(1) [OF True rest] show ?thesis by simp
  next
    case False
    with here obtain avg where a: "average_entries entries = Inr avg" by auto
    with "2.IH"(2) [OF False a rest] False show ?thesis by simp
  qed
qed

lemma mean_axis0_length: "length (mean_axis0 rows) = length (hd rows)"
  by (simp add: mean_axis0_def)

lemma mean_axis0_nth:
  "j < length (hd rows) \<Longrightarrow> mean_axis0 rows ! j = sum_list (map (\<lambda>r. r ! j) rows) / real (length rows)"
  by (simp add: mean_axis0_def)

lemma average_entries_total:
  "es \<noteq> [] \<Longrightarrow> same_shape (map (\<lambda>e. wavelengths (entry_record e)) es) \<Longrightarrow>
   same_shape (map (\<lambda>e. transmittances (entry_record e)) es) \<Longrightarrow>
   \<exists>avg. average_entries es = Inr avg"
  by (simp add: average_entries_def np_stack_def same_shape_def Let_def)

lemma np_stack_Inr: "np_stack rows = Inr x \<Longrightarrow> x = rows"
  by (simp add: np_stack_def split: if_splits)

lemma average_entries_fields:
  assumes "average_entries es = Inr avg"
  shows "wavelengths (entry_record avg) = mean_axis0 (map (\<lambda>e. wavelengths (entry_record e)) es)"
    and "transmittances (entry_record avg) = mean_axis0 (map (\<lambda>e. transmittances (entry_record e)) es)"
    and "absorbances (entry_record avg)
          = map (\<lambda>t. - log 10 (max t (1 / 10 ^ 12))) (transmittances (entry_record avg))"
    and "measurement avg = ''transmittance''"
    and "metadata avg = metadata (hd es)"
  using assms
  by (auto simp: average_entries_def Let_def np_clip_lo_def split: sum.splits simp del: power_numeral
        dest!: np_stack_Inr)

lemma averaged_entry:
  assumes ok: "averaged suffix c = Inr out"
    and two: "2 \<le> length (replicates suffix c r)"
  shows "\<exists>avg. average_entries (replicates suffix c r) = Inr avg \<and> map_of out r = Some avg"
proof -
  let ?es = "replicates suffix c r"
  have ne: "?es \<noteq> []" using two by auto
  then have "map_of (group_by_root suffix c) r = Some ?es"
    by (simp add: map_of_group_by_root)
  then have mem: "(r, ?es) \<in> set (group_by_root suffix c)"
    by (rule map_of_SomeD)
  have loop: "averaged_loop (group_by_root suffix c) [] = Inr out"
    using ok by (simp add: averaged_def)
  from averaged_loop_entry [OF loop distinct_group_by_root mem] two
  show ?thesis by (simp split: if_splits)
qed

lemma averaged_total:
  assumes "\<And>r. same_shape (map (\<lambda>e. wavelengths (entry_record e)) (replicates suffix c r))
            \<and> same_shape (map (\<lambda>e. transmittances (entry_record e)) (replicates suffix c r))"
  shows "\<exists>out. averaged suffix c = Inr out"
  unfolding averaged_def
proof (rule averaged_loop_total)
  fix r es
  assume "(r, es) \<in> set (group_by_root suffix c)"
  then have es: "es = replicates suffix c r" and ne: "es \<noteq> []"
    using group_by_root_member by blast+
  from average_entries_total [OF ne] assms [of r] es
  show "length es = 1 \<or> (\<exists>avg. average_entries es = Inr avg)" by simp
qed

lemma averaged_distinct: "averaged suffix c = Inr out \<Longrightarrow> distinct (map fst out)"
  using averaged_loop_distinct [of "group_by_root suffix c" "[]" out] by (simp add: averaged_def)

lemma key_root_examples:
  "key_root ''#'' ''X#1'' = ''X''" "key_root ''#'' ''X#2'' = ''X''"
  by (simp_all add: key_root_def)

lemma averaged_half_tenth:
  "averaged ''#''
     [(''X#1'', example_entry [400, 500] [- log 10 (1 / 2), - log 10 (1 / 2)] [1 / 2, 1 / 2]),
      (''X#2'', example_entry [400, 500] [1, 1] [1 / 10, 1 / 10])]
   = Inr [(''X'', example_entry [400, 500] [- log 10 (3 / 10), - log 10 (3 / 10)] [3 / 10, 3 / 10])]"
  by (simp add: averaged_def group_by_root_def key_root_examples average_entries_def np_stack_def
      mean_axis0_def np_clip_lo_def example_entry_def Let_def upt_small)

lemma averaged_tiny:
  "averaged ''#''
     [(''X#1'', example_entry [400] [13] [1 / 10 ^ 13]),
      (''X#2'', example_entry [400] [13] [1 / 10 ^ 13])]
   = Inr [(''X'', example_entry [400] [12] [1 / 10 ^ 13])]"
  by (simp add: averaged_def group_by_root_def key_root_examples average_entries_def np_stack_def
      mean_axis0_def np_clip_lo_def example_entry_def Let_def upt_small log10_floor_value)

lemma log10_tiny: "- log 10 (1 / 10 ^ 13) = (13 :: real)"
proof -
  have "(1 / 10 ^ 13 :: real) = 10 powr (- 13)"
    by (simp add: powr_minus_divide)
  then show ?thesis
    by (simp only: log_powr_cancel)
qed

lemma mean_of_absorbances_differs:
  "- log 10 (3 / 10) \<noteq> (- log 10 (1 / 2) + - log 10 (1 / 10)) / (2 :: real)"
proof -
  have a: "log 10 (3 / 10) + log 10 (3 / 10) = log 10 (9 / 100 :: real)"
    using log_mult [where a = "10 :: real" and x = "3 / 10" and y = "3 / 10"] by simp
  have b: "log 10 (1 / 2) + log 10 (1 / 10) = log 10 (1 / 20 :: real)"
    using log_mult [where a = "10 :: real" and x = "1 / 2" and y = "1 / 10"] by simp
  have c: "log 10 (1 / 20 :: real) < log 10 (9 / 100)"
    by simp
  show ?thesis
  proof
    assume "- log 10 (3 / 10) = (- log 10 (1 / 2) + - log 10 (1 / 10)) / (2 :: real)"
    then have "log 10 (3 / 10) + log 10 (3 / 10) = log 10 (1 / 2) + log 10 (1 / 10 :: real)"
      by (simp add: field_simps)
    with a b c show False by linarith
  qed
qed

lemma averaged_replicates_general:
  assumes shapes: "\<forall>rt. same_shape (map (\<lambda>e. wavelengths (entry_record e)) (replicates suffix c rt))
                     \<and> same_shape (map (\<lambda>e. transmittances (entry_record e)) (replicates suffix c rt))"
    and two: "2 \<le> length (replicates suffix c r)"
  shows "\<exists>out avg. averaged suffix c = Inr out \<and> map_of out r = Some avg
     \<and> distinct (map fst out)
     \<and> length (wavelengths (entry_record avg)) = length (wavelengths (entry_record (hd (replicates suffix c r))))
     \<and> length (transmittances (entry_record avg)) = length (transmittances (entry_record (hd (replicates suffix c r))))
     \<and> length (absorbances (entry_record avg)) = length (transmittances (entry_record avg))
     \<and> (\<forall>j < length (wavelengths (entry_record avg)).
           wavelengths (entry_record avg) ! j
           = (\<Sum>e\<leftarrow>replicates suffix c r. wavelengths (entry_record e) ! j) / real (length (replicates suffix c r)))
     \<and> (\<forall>j < length (transmittances (entry_record avg)).
           transmittances (entry_record avg) ! j
           = (\<Sum>e\<leftarrow>replicates suffix c r. transmittances (entry_record e) ! j) / real (length (replicates suffix c r))
         \<and> absorbances (entry_record avg) ! j = - log 10 (max (transmittances (entry_record avg) ! j) (1 / 10 ^ 12))
         \<and> (1 / 10 ^ 12 \<le> transmittances (entry_record avg) ! j
              \<longrightarrow> absorbances (entry_record avg) ! j = - log 10 (transmittances (entry_record avg) ! j)))"
proof -
  let ?es = "replicates suffix c r"
  have ne: "?es \<noteq> []" using two by auto
  obtain out where out: "averaged suffix c = Inr out"
    using averaged_total [of suffix c] shapes by blast
  obtain avg where avg: "average_entries ?es = Inr avg" and look: "map_of out r = Some avg"
    using averaged_entry [OF out two] by blast
  note f = average_entries_fields [OF avg]
  have hdw: "hd (map (\<lambda>e. wavelengths (entry_record e)) ?es) = wavelengths (entry_record (hd ?es))"
    and hdt: "hd (map (\<lambda>e. transmittances (entry_record e)) ?es) = transmittances (entry_record (hd ?es))"
    using ne by (simp_all add: hd_map)
  have lw: "length (wavelengths (entry_record avg)) = length (wavelengths (entry_record (hd ?es)))"
    by (simp add: f(1) mean_axis0_length hdw)
  have lt: "length (transmittances (entry_record avg)) = length (transmittances (entry_record (hd ?es)))"
    by (simp add: f(2) mean_axis0_length hdt)
  have la: "length (absorbances (entry_record avg)) = length (transmittances (entry_record avg))"
    by (subst f(3)) simp
  have w: "wavelengths (entry_record avg) ! j
           = (\<Sum>e\<leftarrow>?es. wavelengths (entry_record e) ! j) / real (length ?es)"
    if "j < length (wavelengths (entry_record avg))" for j
    using that lw by (simp add: f(1) mean_axis0_nth hdw o_def)
  have t: "transmittances (entry_record avg) ! j
           = (\<Sum>e\<leftarrow>?es. transmittances (entry_record e) ! j) / real (length ?es)"
    if "j < length (transmittances (entry_record avg))" for j
    using that lt by (simp add: f(2) mean_axis0_nth hdt o_def)
  have a: "absorbances (entry_record avg) ! j = - log 10 (max (transmittances (entry_record avg) ! j) (1 / 10 ^ 12))"
    if "j < length (transmittances (entry_record avg))" for j
    using that by (subst f(3)) (simp del: power_numeral)
  have a': "absorbances (entry_record avg) ! j = - log 10 (transmittances (entry_record avg) ! j)"
    if "j < length (transmittances (entry_record avg))" "1 / 10 ^ 12 \<le> transmittances (entry_record avg) ! j" for j
    using a [OF that(1)] that(2) by (simp add: max_def del: power_numeral)
  show ?thesis
    using out look averaged_distinct [OF out] lw lt la w t a a' by blast
qed

text \<open>
  Claim C1 (as amended). Whenever the replicate arrays of every root have one length,
  \<open>averaged\<close> returns, and the entries whose keys share the root \<open>r\<close> (two or more)
  are merged into one entry: its wavelengths and transmittances are the element-wise
  arithmetic means across the replicates, and its absorbances are \<open>-log10\<close> of the
  mean transmittance clamped below at \<open>1e-12\<close>, hence \<open>-log10\<close> of the mean
  transmittance wherever that is at least \<open>1e-12\<close>; they are not the mean of the
  replicate absorbances. Transmittances \<open>[0.5, 0.5]\<close> and \<open>[0.1, 0.1]\<close> give mean
  transmittance 0.3 and absorbance \<open>-log10(0.3)\<close>.
\<close>

theorem averaged_merges_replicates:
  "((\<forall>rt. same_shape (map (\<lambda>e. wavelengths (entry_record e)) (replicates suffix c rt))
         \<and> same_shape (map (\<lambda>e. transmittances (entry_record e)) (replicates suffix c rt)))
     \<longrightarrow> 2 \<le> length (replicates suffix c r)
     \<longrightarrow> (\<exists>out avg. averaged suffix c = Inr out \<and> map_of out r = Some avg
     \<and> distinct (map fst out)
     \<and> length (wavelengths (entry_record avg)) = length (wavelengths (entry_record (hd (replicates suffix c r))))
     \<and> length (transmittances (entry_record avg)) = length (transmittances (entry_record (hd (replicates suffix c r))))
     \<and> length (absorbances (entry_record avg)) = length (transmittances (entry_record avg))
     \<and> (\<forall>j < length (wavelengths (entry_record avg)).
           wavelengths (entry_record avg) ! j
           = (\<Sum>e\<leftarrow>replicates suffix c r. wavelengths (entry_record e) ! j) / real (length (replicates suffix c r)))
     \<and> (\<forall>j < length (transmittances (entry_record avg)).
           transmittances (entry_record avg) ! j
           = (\<Sum>e\<leftarrow>replicates suffix c r. transmittances (entry_record e) ! j) / real (length (replicates suffix c r))
         \<and> absorbances (entry_record avg) ! j = - log 10 (max (transmittances (entry_record avg) ! j) (1 / 10 ^ 12))
         \<and> (1 / 10 ^ 12 \<le> transmittances (entry_record avg) ! j
              \<longrightarrow> absorbances (entry_record avg) ! j = - log 10 (transmittances (entry_record avg) ! j)))))
   \<and> averaged ''#''
       [(''X#1'', example_entry [400, 500] [- log 10 (1 / 2), - log 10 (1 / 2)] [1 / 2, 1 / 2]),
        (''X#2'', example_entry [400, 500] [1, 1] [1 / 10, 1 / 10])]
     = Inr [(''X'', example_entry [400, 500] [- log 10 (3 / 10), - log 10 (3 / 10)] [3 / 10, 3 / 10])]
   \<and> - log 10 (3 / 10) \<noteq> (- log 10 (1 / 2) + - log 10 (1 / 10)) / (2 :: real)"
  using averaged_replicates_general [of suffix c r] averaged_half_tenth mean_of_absorbances_differs
  by blast

text \<open>
  The claim as stated fails where the mean transmittance is below \<open>1e-12\<close>: two
  replicates with transmittance \<open>1e-13\<close> average to absorbance 12, while \<open>-log10\<close> of
  their mean transmittance is 13.
\<close>

theorem averaged_merges_replicates_counterexample:
  "averaged ''#''
     [(''X#1'', example_entry [400] [13] [1 / 10 ^ 13]),
      (''X#2'', example_entry [400] [13] [1 / 10 ^ 13])]
   = Inr [(''X'', example_entry [400] [12] [1 / 10 ^ 13])]
   \<and> - log 10 (1 / 10 ^ 13) \<noteq> (12 :: real)"
  using averaged_tiny log10_tiny by simp

lemma replicates_example:
  "replicates ''#'' [(''X#1'', e1), (''X#2'', e2)] rt = (if rt = ''X'' then [e1, e2] else [])"
  by (auto simp: replicates_def key_root_examples)

text \<open>The theorem at the specification's example.\<close>

theorem averaged_merges_replicates_witness:
  "\<exists>out avg. averaged ''#''
       [(''X#1'', example_entry [400, 500] [- log 10 (1 / 2), - log 10 (1 / 2)] [1 / 2, 1 / 2]),
        (''X#2'', example_entry [400, 500] [1, 1] [1 / 10, 1 / 10])] = Inr out
     \<and> map_of out ''X'' = Some avg
     \<and> transmittances (entry_record avg) ! 0 = 3 / 10
     \<and> absorbances (entry_record avg) ! 0 = - log 10 (3 / 10)"
proof -
  let ?c = "[(''X#1'', example_entry [400, 500] [- log 10 (1 / 2), - log 10 (1 / 2)] [1 / 2, 1 / 2]),
        (''X#2'', example_entry [400, 500] [1, 1] [1 / 10, 1 / 10])]"
  have shapes: "\<forall>rt. same_shape (map (\<lambda>e. wavelengths (entry_record e)) (replicates ''#'' ?c rt))
         \<and> same_shape (map (\<lambda>e. transmittances (entry_record e)) (replicates ''#'' ?c rt))"
    by (simp add: replicates_example same_shape_def example_entry_def)
  have two: "2 \<le> length (replicates ''#'' ?c ''X'')"
    by (simp add: replicates_example)
  from averaged_merges_replicates [of "''#''" ?c "''X''"] shapes two
  obtain out avg where o: "averaged ''#'' ?c = Inr out" "map_of out ''X'' = Some avg"
    and l: "length (transmittances (entry_record avg))
             = length (transmittances (entry_record (hd (replicates ''#'' ?c ''X''))))"
    and t: "\<forall>j < length (transmittances (entry_record avg)).
           transmittances (entry_record avg) ! j
           = (\<Sum>e\<leftarrow>replicates ''#'' ?c ''X''. transmittances (entry_record e) ! j) / real (length (replicates ''#'' ?c ''X''))
         \<and> absorbances (entry_record avg) ! j = - log 10 (max (transmittances (entry_record avg) ! j) (1 / 10 ^ 12))
         \<and> (1 / 10 ^ 12 \<le> transmittances (entry_record avg) ! j
              \<longrightarrow> absorbances (entry_record avg) ! j = - log 10 (transmittances (entry_record avg) ! j))"
    by blast
  have l0: "0 < length (transmittances (entry_record avg))"
    using l by (simp add: replicates_example example_entry_def)
  from t l0 have t0': "transmittances (entry_record avg) ! 0
           = (\<Sum>e\<leftarrow>replicates ''#'' ?c ''X''. transmittances (entry_record e) ! 0) / real (length (replicates ''#'' ?c ''X''))"
    and a0: "1 / 10 ^ 12 \<le> transmittances (entry_record avg) ! 0
              \<longrightarrow> absorbances (entry_record avg) ! 0 = - log 10 (transmittances (entry_record avg) ! 0)"
    by blast+
  have t0: "transmittances (entry_record avg) ! 0 = 3 / 10"
    using t0' by (simp add: replicates_example example_entry_def)
  have "absorbances (entry_record avg) ! 0 = - log 10 (3 / 10)"
    using a0 unfolding t0 by simp
  with o t0 show ?thesis by blast
qed

subsection \<open>Transmittance and absorbance\<close>

lemma parse_InrD:
  "parse specread p = Inr r \<Longrightarrow>
   \<exists>rd sp. specread = Some rd \<and> rd (filename p) = Inr sp \<and> length (amplitudes sp) = length (wavelength sp)"
  by (auto simp: parse_def Let_def split: option.splits sum.splits prod.splits if_splits)

lemma take_idx_mask_map:
  assumes "length xs = length ws" and "length sel = length ws"
  shows "take_idx (np_mask sel (map f xs)) (np_argsort (np_mask sel ws))
       = map f (take_idx (np_mask sel xs) (np_argsort (np_mask sel ws)))"
proof -
  have "length (np_mask sel xs) = length (np_mask sel ws)"
    using assms by (simp add: length_mask)
  then have "\<forall>i\<in>set (np_argsort (np_mask sel ws)). i < length (np_mask sel xs)"
    by (simp add: set_np_argsort)
  then show ?thesis
    by (simp add: mask_map_commute take_idx_map)
qed

lemma parse_relation:
  assumes "parse specread p = Inr r"
  shows "mode p \<noteq> ''T'' \<Longrightarrow> transmittances r = map (\<lambda>a. 10 powr (- a)) (absorbances r)"
    and "mode p = ''T'' \<Longrightarrow> absorbances r = map (\<lambda>t. - log 10 (np_clip_lo t (1 / 10 ^ 12))) (transmittances r)"
proof -
  obtain rd sp where rd: "specread = Some rd" "rd (filename p) = Inr sp"
    and len: "length (amplitudes sp) = length (wavelength sp)"
    using parse_InrD [OF assms] by blast
  let ?sel = "map valid_wavelength (wavelength sp)"
  note res = parse_result [of rd p sp] rd(2) len
  have r: "r = \<lparr>wavelengths = take_idx (np_mask ?sel (wavelength sp)) (np_argsort (np_mask ?sel (wavelength sp))),
          absorbances = take_idx (np_mask ?sel (fst (mode_quantities (mode p) (amplitudes sp))))
             (np_argsort (np_mask ?sel (wavelength sp))),
          transmittances = take_idx (np_mask ?sel (snd (mode_quantities (mode p) (amplitudes sp))))
             (np_argsort (np_mask ?sel (wavelength sp)))\<rparr>"
    using assms res rd(1) by simp
  show "transmittances r = map (\<lambda>a. 10 powr (- a)) (absorbances r)" if "mode p \<noteq> ''T''"
  proof (cases "mode p = ''A''")
    case True
    then show ?thesis
      using take_idx_mask_map [of "amplitudes sp" "wavelength sp" ?sel "\<lambda>a. 10 powr (- a)"] len
      by (simp add: r mode_quantities_def)
  next
    case False
    have "map (\<lambda>a. 10 powr (- (1 - a))) (amplitudes sp)
        = map (\<lambda>a. 10 powr (- a)) (map (\<lambda>a. 1 - a) (amplitudes sp))"
      by simp
    then show ?thesis
      using take_idx_mask_map [of "map (\<lambda>a. 1 - a) (amplitudes sp)" "wavelength sp" ?sel "\<lambda>a. 10 powr (- a)"]
        len False that
      by (simp add: r mode_quantities_def del: map_map)
  qed
  show "absorbances r = map (\<lambda>t. - log 10 (np_clip_lo t (1 / 10 ^ 12))) (transmittances r)" if "mode p = ''T''"
    using take_idx_mask_map [of "amplitudes sp" "wavelength sp" ?sel "\<lambda>t. - log 10 (np_clip_lo t (1 / 10 ^ 12))"]
      len that
    by (simp add: r mode_quantities_def del: power_numeral)
qed

lemma map_max_id: "\<forall>t\<in>set ts. c \<le> t \<Longrightarrow> map (\<lambda>t. max t c) ts = (ts :: real list)"
  by (induction ts) (auto simp: max_def)

lemma powr_clip_map:
  "map (\<lambda>a. 10 powr (- a)) (map (\<lambda>t. - log 10 (np_clip_lo t (1 / 10 ^ 12))) ts)
   = map (\<lambda>t. max t (1 / 10 ^ 12)) ts"
  by (simp add: powr_log_clip o_def del: power_numeral)

lemma powr_log_max: "10 powr log 10 (max t (1 / 10 ^ 12)) = max t (1 / 10 ^ 12)"
  using powr_log_clip [of t] by (simp add: np_clip_lo_def del: power_numeral)

text \<open>
  Claim C2 (as amended). In a record parsed in mode A or R the transmittances are
  \<open>10^(-absorbance)\<close> element-wise. In a record parsed in mode T, and in an entry
  merged by replicate averaging, \<open>10^(-absorbance)\<close> is the transmittance clamped below
  at \<open>1e-12\<close>, so the relation holds wherever the transmittance is at least \<open>1e-12\<close>.
  For every absorbance \<open>A\<close>, \<open>-log10(10^(-A)) = A\<close>.
\<close>

theorem transmittance_absorbance_relation:
  "(parse specread p = Inr r \<longrightarrow> mode p \<noteq> ''T'' \<longrightarrow>
       transmittances r = map (\<lambda>a. 10 powr (- a)) (absorbances r))
   \<and> (parse specread p = Inr r \<longrightarrow> mode p = ''T'' \<longrightarrow>
       map (\<lambda>a. 10 powr (- a)) (absorbances r) = map (\<lambda>t. max t (1 / 10 ^ 12)) (transmittances r)
       \<and> ((\<forall>t\<in>set (transmittances r). 1 / 10 ^ 12 \<le> t) \<longrightarrow>
            transmittances r = map (\<lambda>a. 10 powr (- a)) (absorbances r)))
   \<and> (averaged suffix c = Inr out \<longrightarrow> 2 \<le> length (replicates suffix c rt) \<longrightarrow>
       (\<exists>avg. map_of out rt = Some avg
          \<and> map (\<lambda>a. 10 powr (- a)) (absorbances (entry_record avg))
              = map (\<lambda>t. max t (1 / 10 ^ 12)) (transmittances (entry_record avg))
          \<and> ((\<forall>t\<in>set (transmittances (entry_record avg)). 1 / 10 ^ 12 \<le> t) \<longrightarrow>
               transmittances (entry_record avg) = map (\<lambda>a. 10 powr (- a)) (absorbances (entry_record avg)))))
   \<and> - log 10 (10 powr (- a)) = a"
proof (intro conjI impI)
  assume "parse specread p = Inr r" "mode p \<noteq> ''T''"
  then show "transmittances r = map (\<lambda>a. 10 powr (- a)) (absorbances r)"
    by (rule parse_relation(1))
next
  assume h: "parse specread p = Inr r" "mode p = ''T''"
  show m: "map (\<lambda>a. 10 powr (- a)) (absorbances r) = map (\<lambda>t. max t (1 / 10 ^ 12)) (transmittances r)"
    by (subst parse_relation(2) [OF h]) (rule powr_clip_map)
  assume "\<forall>t\<in>set (transmittances r). 1 / 10 ^ 12 \<le> t"
  then show "transmittances r = map (\<lambda>a. 10 powr (- a)) (absorbances r)"
    using m map_max_id [of "transmittances r" "1 / 10 ^ 12"] by (simp del: power_numeral)
next
  assume h: "averaged suffix c = Inr out" "2 \<le> length (replicates suffix c rt)"
  obtain avg where avg: "average_entries (replicates suffix c rt) = Inr avg" "map_of out rt = Some avg"
    using averaged_entry [OF h] by blast
  have m: "map (\<lambda>a. 10 powr (- a)) (absorbances (entry_record avg))
              = map (\<lambda>t. max t (1 / 10 ^ 12)) (transmittances (entry_record avg))"
    by (subst average_entries_fields(3) [OF avg(1)]) (simp add: o_def powr_log_max del: power_numeral)
  have "transmittances (entry_record avg) = map (\<lambda>a. 10 powr (- a)) (absorbances (entry_record avg))"
    if "\<forall>t\<in>set (transmittances (entry_record avg)). 1 / 10 ^ 12 \<le> t"
    using that m map_max_id [of "transmittances (entry_record avg)" "1 / 10 ^ 12"]
    by (simp del: power_numeral)
  with avg(2) m
  show "\<exists>avg. map_of out rt = Some avg
          \<and> map (\<lambda>a. 10 powr (- a)) (absorbances (entry_record avg))
              = map (\<lambda>t. max t (1 / 10 ^ 12)) (transmittances (entry_record avg))
          \<and> ((\<forall>t\<in>set (transmittances (entry_record avg)). 1 / 10 ^ 12 \<le> t) \<longrightarrow>
               transmittances (entry_record avg) = map (\<lambda>a. 10 powr (- a)) (absorbances (entry_record avg)))"
    by blast
next
  show "- log 10 (10 powr (- a)) = a" by simp
qed

text \<open>
  The claim as stated fails in mode T at an opaque sample: transmittance 0 is stored
  with absorbance 12, and \<open>10^(-12)\<close> is not 0.
\<close>

lemma parse_mode_T_zero:
  "parse (Some (\<lambda>file. Inr \<lparr>wavelength = [400], amplitudes = [0]\<rparr>)) \<lparr>filename = ''opaque.sp'', mode = ''T''\<rparr>
     = Inr \<lparr>wavelengths = [400], absorbances = [12], transmittances = [0]\<rparr>"
  by (simp add: parse_def mode_quantities_def valid_wavelength_def np_mask_def np_argsort_def
      take_idx_def Let_def np_clip_lo_def log10_floor_value)

theorem transmittance_absorbance_relation_counterexample:
  "parse (Some (\<lambda>file. Inr \<lparr>wavelength = [400], amplitudes = [0]\<rparr>)) \<lparr>filename = ''opaque.sp'', mode = ''T''\<rparr>
     = Inr \<lparr>wavelengths = [400], absorbances = [12], transmittances = [0]\<rparr>
   \<and> [0 :: real] \<noteq> map (\<lambda>a. 10 powr (- a)) [12]"
  by (simp add: parse_mode_T_zero)


text \<open>
  The theorem at the opaque sample (mode T), at the band example (mode A) and at the
  two replicates of transmittance \<open>1e-13\<close>.
\<close>

theorem transmittance_absorbance_relation_witness:
  "map (\<lambda>a. 10 powr (- a)) [12] = map (\<lambda>t. max t (1 / 10 ^ 12)) [0 :: real]
   \<and> [10 powr (- 2), 10 powr (- 3), 10 powr (- 4)] = map (\<lambda>a. 10 powr (- a)) [2, 3, 4 :: real]
   \<and> (\<exists>avg. map_of [(''X'', example_entry [400] [12] [1 / 10 ^ 13])] ''X'' = Some avg
        \<and> map (\<lambda>a. 10 powr (- a)) (absorbances (entry_record avg))
            = map (\<lambda>t. max t (1 / 10 ^ 12)) (transmittances (entry_record avg)))"
proof (intro conjI)
  show "map (\<lambda>a. 10 powr (- a)) [12] = map (\<lambda>t. max t (1 / 10 ^ 12)) [0 :: real]"
    using transmittance_absorbance_relation
      [of "Some (\<lambda>file. Inr \<lparr>wavelength = [400], amplitudes = [0]\<rparr>)"
          "\<lparr>filename = ''opaque.sp'', mode = ''T''\<rparr>"
          "\<lparr>wavelengths = [400], absorbances = [12], transmittances = [0]\<rparr>"]
      parse_mode_T_zero
    by simp
  show "[10 powr (- 2), 10 powr (- 3), 10 powr (- 4)] = map (\<lambda>a. 10 powr (- a)) [2, 3, 4 :: real]"
    using transmittance_absorbance_relation
      [of "Some (\<lambda>file. Inr \<lparr>wavelength = [249, 250, 400, 800, 801], amplitudes = [1, 2, 3, 4, 5]\<rparr>)"
          "\<lparr>filename = ''sample.sp'', mode = ''A''\<rparr>"
          "\<lparr>wavelengths = [250, 400, 800], absorbances = [2, 3, 4],
            transmittances = [10 powr (- 2), 10 powr (- 3), 10 powr (- 4)]\<rparr>"]
      parse_band_example
    by simp
  have "2 \<le> length (replicates ''#''
          [(''X#1'', example_entry [400] [13] [1 / 10 ^ 13]),
           (''X#2'', example_entry [400] [13] [1 / 10 ^ 13])] ''X'')"
    by (simp add: replicates_example)
  with transmittance_absorbance_relation
      [of _ _ _ "''#''" "[(''X#1'', example_entry [400] [13] [1 / 10 ^ 13]),
           (''X#2'', example_entry [400] [13] [1 / 10 ^ 13])]"
          "[(''X'', example_entry [400] [12] [1 / 10 ^ 13])]" "''X''"]
    averaged_tiny
  show "\<exists>avg. map_of [(''X'', example_entry [400] [12] [1 / 10 ^ 13])] ''X'' = Some avg
        \<and> map (\<lambda>a. 10 powr (- a)) (absorbances (entry_record avg))
            = map (\<lambda>t. max t (1 / 10 ^ 12)) (transmittances (entry_record avg))"
    by blast
qed

subsection \<open>Spectrum to tristimulus values\<close>

lemma spectrum_to_xyz_InrD:
  assumes "spectrum_to_xyz (Some lib) spectrum absorbance illuminant = Inr (out_rgb, out_lab, out_xyz)"
  shows "\<exists>sd raw srgb.
           SpectralDistribution lib
             (dict_of (zip (map fst (filter in_band spectrum))
                (if absorbance then map (\<lambda>v. 10 powr (- v)) (map snd (filter in_band spectrum))
                 else map snd (filter in_band spectrum)))) = Inr sd
         \<and> sd_to_XYZ lib sd illuminant = Inr raw
         \<and> out_xyz = map (\<lambda>v. v / 100) raw
         \<and> XYZ_to_Lab lib out_xyz = Inr out_lab
         \<and> XYZ_to_sRGB lib out_xyz = Inr srgb
         \<and> out_rgb = map (\<lambda>c. min (max c 0) 1) srgb"
  using assms
  by (auto simp: spectrum_to_xyz_def Let_def np_clip_def split: if_splits sum.splits)

lemma spectrum_to_xyz_drop:
  assumes "w < 360 \<or> 800 < w" and "xs @ ys \<noteq> []"
  shows "spectrum_to_xyz colour (xs @ (w, v) # ys) absorbance illuminant
       = spectrum_to_xyz colour (xs @ ys) absorbance illuminant"
proof (cases colour)
  case None
  then show ?thesis by (simp add: spectrum_to_xyz_def)
next
  case (Some lib)
  have "\<not> in_band (w, v)" using assms(1) by (auto simp: in_band_def)
  then have f: "filter in_band (xs @ (w, v) # ys) = filter in_band (xs @ ys)"
    by simp
  have ne: "xs @ (w, v) # ys \<noteq> []" by simp
  show ?thesis
    unfolding spectrum_to_xyz_def Some option.case if_not_P [OF ne] if_not_P [OF assms(2)] f ..
qed

lemma spectrum_to_xyz_total:
  assumes "spectrum \<noteq> []"
    and "\<forall>d. \<exists>sd. SpectralDistribution lib d = Inr sd"
    and "\<forall>sd. \<exists>raw. sd_to_XYZ lib sd illuminant = Inr raw"
    and "\<forall>x. \<exists>l. XYZ_to_Lab lib x = Inr l"
    and "\<forall>x. \<exists>c. XYZ_to_sRGB lib x = Inr c"
  shows "\<exists>out_rgb out_lab out_xyz. spectrum_to_xyz (Some lib) spectrum absorbance illuminant = Inr (out_rgb, out_lab, out_xyz)"
proof -
  let ?d = "dict_of (zip (map fst (filter in_band spectrum))
                (if absorbance then map (\<lambda>v. 10 powr (- v)) (map snd (filter in_band spectrum))
                 else map snd (filter in_band spectrum)))"
  obtain sd where sd: "SpectralDistribution lib ?d = Inr sd" using assms(2) by blast
  obtain raw where raw: "sd_to_XYZ lib sd illuminant = Inr raw" using assms(3) by blast
  obtain l where l: "XYZ_to_Lab lib (map (\<lambda>v. v / 100) raw) = Inr l" using assms(4) by blast
  obtain c where c: "XYZ_to_sRGB lib (map (\<lambda>v. v / 100) raw) = Inr c" using assms(5) by blast
  show ?thesis
    using assms(1) sd raw l c by (simp add: spectrum_to_xyz_def Let_def)
qed

text \<open>
  Claim C6. Whenever \<open>spectrum_to_xyz\<close> returns, the distribution it integrates holds
  exactly the pairs with wavelength in \<open>[360, 800]\<close>, the returned xyz is the raw
  integrated tristimulus divided by 100, and every component of the returned rgb lies
  in \<open>[0, 1]\<close>. A pair outside the band changes nothing, not even by an error: the
  result with it equals the result without it. With the package present and its
  functions returning, a non-empty spectrum always yields a result.
\<close>

theorem spectrum_to_xyz_band_scale_clip:
  "(spectrum_to_xyz (Some lib) spectrum absorbance illuminant = Inr (out_rgb, out_lab, out_xyz) \<longrightarrow>
      (\<forall>c\<in>set out_rgb. 0 \<le> c \<and> c \<le> 1)
      \<and> (\<exists>sd raw.
            SpectralDistribution lib
              (dict_of (zip (map fst (filter in_band spectrum))
                 (if absorbance then map (\<lambda>v. 10 powr (- v)) (map snd (filter in_band spectrum))
                  else map snd (filter in_band spectrum)))) = Inr sd
          \<and> sd_to_XYZ lib sd illuminant = Inr raw
          \<and> out_xyz = map (\<lambda>v. v / 100) raw))
   \<and> (in_band (w, v) \<longleftrightarrow> 360 \<le> w \<and> w \<le> 800)
   \<and> (w < 360 \<or> 800 < w \<longrightarrow> xs @ ys \<noteq> [] \<longrightarrow>
        spectrum_to_xyz colour (xs @ (w, v) # ys) absorbance illuminant
        = spectrum_to_xyz colour (xs @ ys) absorbance illuminant)
   \<and> (spectrum \<noteq> []
        \<longrightarrow> (\<forall>d. \<exists>sd. SpectralDistribution lib d = Inr sd)
        \<longrightarrow> (\<forall>sd. \<exists>raw. sd_to_XYZ lib sd illuminant = Inr raw)
        \<longrightarrow> (\<forall>x. \<exists>l. XYZ_to_Lab lib x = Inr l)
        \<longrightarrow> (\<forall>x. \<exists>c. XYZ_to_sRGB lib x = Inr c)
        \<longrightarrow> (\<exists>out_rgb out_lab out_xyz. spectrum_to_xyz (Some lib) spectrum absorbance illuminant = Inr (out_rgb, out_lab, out_xyz)))"
proof (intro conjI impI)
  assume h: "spectrum_to_xyz (Some lib) spectrum absorbance illuminant = Inr (out_rgb, out_lab, out_xyz)"
  from spectrum_to_xyz_InrD [OF h] show "\<forall>c\<in>set out_rgb. 0 \<le> c \<and> c \<le> 1"
    by auto
  from spectrum_to_xyz_InrD [OF h]
  show "\<exists>sd raw.
            SpectralDistribution lib
              (dict_of (zip (map fst (filter in_band spectrum))
                 (if absorbance then map (\<lambda>v. 10 powr (- v)) (map snd (filter in_band spectrum))
                  else map snd (filter in_band spectrum)))) = Inr sd
          \<and> sd_to_XYZ lib sd illuminant = Inr raw
          \<and> out_xyz = map (\<lambda>v. v / 100) raw"
    by blast
next
  show "in_band (w, v) \<longleftrightarrow> 360 \<le> w \<and> w \<le> 800" by (simp add: in_band_def)
next
  assume "w < 360 \<or> 800 < w" "xs @ ys \<noteq> []"
  then show "spectrum_to_xyz colour (xs @ (w, v) # ys) absorbance illuminant
        = spectrum_to_xyz colour (xs @ ys) absorbance illuminant"
    by (rule spectrum_to_xyz_drop)
next
  assume "spectrum \<noteq> []" "\<forall>d. \<exists>sd. SpectralDistribution lib d = Inr sd"
    "\<forall>sd. \<exists>raw. sd_to_XYZ lib sd illuminant = Inr raw"
    "\<forall>x. \<exists>l. XYZ_to_Lab lib x = Inr l" "\<forall>x. \<exists>c. XYZ_to_sRGB lib x = Inr c"
  then show "\<exists>out_rgb out_lab out_xyz. spectrum_to_xyz (Some lib) spectrum absorbance illuminant = Inr (out_rgb, out_lab, out_xyz)"
    by (rule spectrum_to_xyz_total)
qed

lemma toy_run:
  "spectrum_to_xyz (Some toy_lib) [(300, 9), (400, 1 / 2), (500, 1), (900, 7)] False None
   = Inr ([1 / 2, 0, 1], [3 / 2, 1 / 2, 5 / 2], [3 / 2, 1 / 2, 5 / 2])"
  by (simp add: spectrum_to_xyz_def toy_lib_def in_band_def dict_of_def np_clip_def Let_def)

text \<open>The theorem at a spectrum with one pair below and one above the band.\<close>

theorem spectrum_to_xyz_band_scale_clip_witness:
  "spectrum_to_xyz (Some toy_lib) [(300, 9), (400, 1 / 2), (500, 1), (900, 7)] False None
     = Inr ([1 / 2, 0, 1], [3 / 2, 1 / 2, 5 / 2], [3 / 2, 1 / 2, 5 / 2])
   \<and> list_all (\<lambda>c. 0 \<le> c \<and> c \<le> 1) [1 / 2, 0, 1 :: real]
   \<and> spectrum_to_xyz (Some toy_lib) ([(300, 9), (400, 1 / 2)] @ (900, 7) # [(500, 1)]) False None
     = spectrum_to_xyz (Some toy_lib) ([(300, 9), (400, 1 / 2)] @ [(500, 1)]) False None"
  using spectrum_to_xyz_band_scale_clip
    [of toy_lib "[(300, 9), (400, 1 / 2), (500, 1), (900, 7)]" False None
        "[1 / 2, 0, 1]" "[3 / 2, 1 / 2, 5 / 2]" "[3 / 2, 1 / 2, 5 / 2]"
        900 7 "[(300, 9), (400, 1 / 2)]" "[(500, 1)]" "Some toy_lib"]
    toy_run
  by simp

subsection \<open>Dictionaries: repeated stores\<close>

lemma dict_update_all_simps [simp]:
  "dict_update_all [] d = d"
  "dict_update_all ((k, v) # us) d = dict_update_all us (AList.update k v d)"
  by (simp_all add: dict_update_all_def)

lemma dict_update_all_append: "dict_update_all (us @ vs) d = dict_update_all vs (dict_update_all us d)"
  by (simp add: dict_update_all_def)

lemma keys_dict_update_all: "fst ` set (dict_update_all us d) = fst ` set d \<union> fst ` set us"
proof (induction us arbitrary: d)
  case Nil
  then show ?case by simp
next
  case (Cons u us)
  obtain k v where u: "u = (k, v)" by (cases u)
  have "fst ` set (dict_update_all us (AList.update k v d)) = ({k} \<union> fst ` set d) \<union> fst ` set us"
    by (simp only: Cons.IH dom_update)
  then show ?case by (simp add: u Un_ac)
qed

lemma distinct_dict_update_all:
  "distinct (map fst d) \<Longrightarrow> distinct (map fst (dict_update_all us d))"
  by (induction us arbitrary: d) (auto simp: distinct_update)

lemma map_of_dict_update_all: "map_of (dict_update_all us d) = map_of d ++ map_of (rev us)"
proof (induction us arbitrary: d)
  case Nil
  then show ?case by simp
next
  case (Cons u us)
  obtain k v where u: "u = (k, v)" by (cases u)
  have e: "(map_of d)(k \<mapsto> v) ++ map_of (rev us) = map_of d ++ ([k \<mapsto> v] ++ map_of (rev us))"
    by (rule ext) (simp add: map_add_def split: option.splits)
  have "map_of (dict_update_all (u # us) d) = map_of (AList.update k v d) ++ map_of (rev us)"
    by (simp add: u Cons.IH)
  also have "\<dots> = (map_of d)(k \<mapsto> v) ++ map_of (rev us)"
    by (simp only: update_conv')
  also have "\<dots> = map_of d ++ ([k \<mapsto> v] ++ map_of (rev us))"
    by (fact e)
  also have "\<dots> = map_of d ++ map_of (rev (u # us))"
    by (simp add: u)
  finally show ?case .
qed

lemma update_present_keys: "k \<in> fst ` set d \<Longrightarrow> map fst (AList.update k v d) = map fst d"
  by (induction d) auto

lemma dict_update_all_present_keys:
  "fst ` set us \<subseteq> fst ` set d \<Longrightarrow> map fst (dict_update_all us d) = map fst d"
proof (induction us arbitrary: d)
  case Nil
  then show ?case by simp
next
  case (Cons u us)
  obtain k v where u: "u = (k, v)" by (cases u)
  have k: "k \<in> fst ` set d" using Cons.prems u by auto
  have "fst ` set us \<subseteq> fst ` set (AList.update k v d)"
    using Cons.prems u by (auto simp: dom_update)
  from Cons.IH [OF this] show ?case
    by (simp add: u update_present_keys [OF k])
qed

lemma alist_eqI:
  "distinct (map fst xs) \<Longrightarrow> map fst xs = map fst ys \<Longrightarrow> map_of xs = map_of ys \<Longrightarrow> xs = ys"
proof (induction xs arbitrary: ys)
  case Nil
  then show ?case by simp
next
  case (Cons x xs)
  then obtain y ys' where ys: "ys = y # ys'" by (cases ys) auto
  obtain k v where x: "x = (k, v)" by (cases x)
  obtain k' v' where y: "y = (k', v')" by (cases y)
  have kk: "k' = k" using Cons.prems(2) by (simp add: ys x y)
  from Cons.prems(3) have "map_of (x # xs) k = map_of ys k" by (rule fun_cong)
  then have vv: "v' = v" by (simp add: ys x y kk)
  have notin: "k \<notin> fst ` set xs" "k \<notin> fst ` set ys'"
    using Cons.prems(1,2) by (auto simp: ys x y kk simp flip: set_map)
  have "map_of xs j = map_of ys' j" for j
  proof (cases "j = k")
    case True
    have "map_of xs k = None" "map_of ys' k = None"
      using notin by (simp_all add: map_of_eq_None_iff)
    with True show ?thesis by simp
  next
    case False
    from Cons.prems(3) have "map_of (x # xs) j = map_of ys j" by (rule fun_cong)
    with False show ?thesis by (simp add: ys x y kk)
  qed
  then have "map_of xs = map_of ys'" by (rule ext)
  moreover have "distinct (map fst xs)" "map fst xs = map fst ys'"
    using Cons.prems(1,2) by (simp_all add: ys)
  ultimately have "xs = ys'" by (rule Cons.IH [rotated 2])
  then show ?case by (simp add: ys x y kk vv)
qed

lemma dict_update_all_idem:
  assumes "distinct (map fst d)"
  shows "dict_update_all us (dict_update_all us d) = dict_update_all us d"
proof (rule alist_eqI)
  show "distinct (map fst (dict_update_all us (dict_update_all us d)))"
    by (intro distinct_dict_update_all assms)
  show "map fst (dict_update_all us (dict_update_all us d)) = map fst (dict_update_all us d)"
    by (rule dict_update_all_present_keys) (simp add: keys_dict_update_all)
  show "map_of (dict_update_all us (dict_update_all us d)) = map_of (dict_update_all us d)"
    by (rule ext) (simp add: map_of_dict_update_all map_add_def split: option.splits)
qed

subsection \<open>Loading and grouping as sequences of stores\<close>

lemma extend_with_conv: "extend_with c other = dict_update_all other c"
  by (simp add: extend_with_def dict_update_all_def)

lemma load_loop_plan:
  "load_loop fs ds s lg =
     (case load_plan fs ds lg of
        (e, us, lg') \<Rightarrow>
          (e, s\<lparr>raw_collections := dict_update_all us (raw_collections s),
                all_data := dict_update_all (concat (map snd us)) (all_data s)\<rparr>, lg'))"
proof (induction ds arbitrary: s lg)
  case Nil
  then show ?case by simp
next
  case (Cons d ds)
  show ?case
  proof (cases "path_exists fs (path d)")
    case False
    then show ?thesis by (simp add: Cons.IH)
  next
    case True
    show ?thesis
    proof (cases "from_directory fs (path d) (dir_measurement d) (dir_mode d) (extension d)")
      case (Inl e)
      with True show ?thesis by simp
    next
      case (Inr c)
      with True show ?thesis
        by (simp add: Cons.IH extend_with_conv dict_update_all_append split: prod.splits)
    qed
  qed
qed

lemma build_groups_loop_plan:
  "build_groups_loop lk gs s lg =
     (case groups_plan lk gs lg of
        (e, us, lg') \<Rightarrow> (e, s\<lparr>groups := dict_update_all us (groups s)\<rparr>, lg'))"
proof (induction gs arbitrary: s lg)
  case Nil
  then show ?case by simp
next
  case (Cons g gs)
  show ?case
  proof (cases "map_of lk (source g)")
    case None
    then show ?thesis by simp
  next
    case (Some src)
    then show ?thesis
      by (simp add: Cons.IH split: prod.splits)
  qed
qed

lemma build_groups_idem:
  assumes "build_groups gs s = (e, s', lg)" and "distinct (map fst (groups s))"
  shows "build_groups gs s' = (e, s', lg)"
proof -
  obtain e0 us lg0 where plan: "groups_plan (collection_lookup_of s) (or_default gs (config_groups (config s))) [] = (e0, us, lg0)"
    by (cases "groups_plan (collection_lookup_of s) (or_default gs (config_groups (config s))) []") auto
  have s': "s' = s\<lparr>groups := dict_update_all us (groups s)\<rparr>" and e: "e = e0" and lg: "lg = lg0"
    using assms(1) plan by (simp_all add: build_groups_def build_groups_loop_plan)
  have same: "collection_lookup_of s' = collection_lookup_of s" "config s' = config s"
    by (simp_all add: s' collection_lookup_of_def)
  show ?thesis
    by (simp add: build_groups_def build_groups_loop_plan same plan e lg)
       (simp add: s' dict_update_all_idem [OF assms(2)])
qed

lemma load_directories_idem:
  assumes run: "load_directories fs dirs s = (e, s', lg)"
    and d1: "distinct (map fst (raw_collections s))" and d2: "distinct (map fst (all_data s))"
  shows "load_directories fs dirs s' = (e, s', lg)"
proof -
  let ?ds = "or_default dirs (directories (config s))"
  obtain e0 us lg0 where plan: "load_plan fs ?ds [] = (e0, us, lg0)"
    by (cases "load_plan fs ?ds []") auto
  define sL where "sL = s\<lparr>raw_collections := dict_update_all us (raw_collections s),
                all_data := dict_update_all (concat (map snd us)) (all_data s)\<rparr>"
  have loop: "load_loop fs ?ds s [] = (e0, sL, lg0)"
    by (simp add: load_loop_plan plan sL_def)
  have again: "sL\<lparr>raw_collections := dict_update_all us (raw_collections sL),
                all_data := dict_update_all (concat (map snd us)) (all_data sL)\<rparr> = sL"
    by (simp add: sL_def dict_update_all_idem [OF d1] dict_update_all_idem [OF d2])
  show ?thesis
  proof (cases e0)
    case (Some err)
    then have r: "s' = sL" "e = Some err" "lg = lg0"
      using run loop by (simp_all add: load_directories_def)
    have "config sL = config s" by (simp add: sL_def)
    then have "load_loop fs (or_default dirs (directories (config sL))) sL [] = (e0, sL, lg0)"
      by (simp add: load_loop_plan plan again)
    then show ?thesis
      using Some by (simp add: load_directories_def r)
  next
    case None
    obtain e1 s1 where avg: "build_averaged_dataset sL = (e1, s1)"
      by (cases "build_averaged_dataset sL") auto
    have r: "s' = s1" "e = e1" "lg = lg0"
      using run loop None avg by (simp_all add: load_directories_def)
    have facts: "s1\<lparr>raw_collections := dict_update_all us (raw_collections s1),
                all_data := dict_update_all (concat (map snd us)) (all_data s1)\<rparr> = s1
          \<and> config s1 = config s \<and> build_averaged_dataset s1 = (e1, s1)"
    proof (cases "all_data sL = []")
      case True
      then have "s1 = sL" "e1 = None"
        using avg by (simp_all add: build_averaged_dataset_def)
      then show ?thesis
        using again avg by (simp add: sL_def)
    next
      case False
      show ?thesis
      proof (cases "averaged ''#'' (all_data sL)")
        case (Inl err)
        then have "s1 = sL" "e1 = Some err"
          using avg False by (simp_all add: build_averaged_dataset_def)
        then show ?thesis
          using again avg by (simp add: sL_def)
      next
        case (Inr a)
        then have s1: "s1 = sL\<lparr>averaged_data := a\<rparr>" and e1: "e1 = None"
          using avg False by (simp_all add: build_averaged_dataset_def)
        have "s1\<lparr>raw_collections := dict_update_all us (raw_collections s1),
                all_data := dict_update_all (concat (map snd us)) (all_data s1)\<rparr>
             = (sL\<lparr>raw_collections := dict_update_all us (raw_collections sL),
                all_data := dict_update_all (concat (map snd us)) (all_data sL)\<rparr>)\<lparr>averaged_data := a\<rparr>"
          by (simp add: s1)
        also have "\<dots> = s1"
          by (simp only: again s1)
        finally have one: "s1\<lparr>raw_collections := dict_update_all us (raw_collections s1),
                all_data := dict_update_all (concat (map snd us)) (all_data s1)\<rparr> = s1" .
        have two: "config s1 = config s" by (simp add: s1 sL_def)
        have "all_data s1 = all_data sL" by (simp add: s1)
        then have three: "build_averaged_dataset s1 = (e1, s1)"
          using False Inr by (simp add: build_averaged_dataset_def e1) (simp add: s1)
        from one two three show ?thesis by simp
      qed
    qed
    then have s1_loop: "s1\<lparr>raw_collections := dict_update_all us (raw_collections s1),
                all_data := dict_update_all (concat (map snd us)) (all_data s1)\<rparr> = s1"
      and s1_cfg: "config s1 = config s"
      and s1_avg: "build_averaged_dataset s1 = (e1, s1)"
      by simp_all
    have "load_loop fs (or_default dirs (directories (config s1))) s1 [] = (e0, s1, lg0)"
      by (simp add: load_loop_plan plan s1_loop s1_cfg)
    then show ?thesis
      using None by (simp add: load_directories_def r s1_avg)
  qed
qed

subsection \<open>Group assembly\<close>

lemma keys_loop_map_of:
  "map_of (fst (keys_loop src ks sub lg)) k
   = (if k \<in> set ks \<and> map_of src k \<noteq> None then map_of src k else map_of sub k)"
  by (induction ks arbitrary: sub lg) (auto simp: update_conv' split: option.splits)

lemma keys_loop_log:
  "snd (keys_loop src ks sub lg)
   = lg @ map (\<lambda>k. LogWarning (''Key '' @ k @ '' not found in source collection''))
           (filter (\<lambda>k. map_of src k = None) ks)"
  by (induction ks arbitrary: sub lg) (auto split: option.splits)

lemma keys_loop_fst_log: "fst (keys_loop src ks sub lg) = fst (keys_loop src ks sub lg')"
proof (induction ks arbitrary: sub lg lg')
  case Nil
  then show ?case by simp
next
  case (Cons key ks)
  show ?case
  proof (cases "map_of src key")
    case None
    then show ?thesis
      using Cons.IH [of sub "lg @ [LogWarning (''Key '' @ key @ '' not found in source collection'')]"
          "lg' @ [LogWarning (''Key '' @ key @ '' not found in source collection'')]"]
      by simp
  next
    case (Some e)
    then show ?thesis
      using Cons.IH [of "AList.update key e sub" lg lg'] by simp
  qed
qed

lemma assignments_loop_step:
  "assignments_loop lk ((t, d) # rest) sub lg =
     (case resolve lk d of
        Some entry \<Rightarrow> assignments_loop lk rest (AList.update t entry sub) lg
      | None \<Rightarrow> assignments_loop lk rest sub
                  (lg @ [if split_colon d = None
                         then LogError (''Invalid assignment descriptor '' @ quoted d)
                         else LogWarning (''Assignment '' @ d @ '' -> '' @ t @ '' could not be resolved'')]))"
  by (auto simp: resolve_def split: option.splits)

lemma assignments_loop_unresolved:
  "(\<And>d. (t, d) \<in> set asg \<Longrightarrow> resolve lk d = None) \<Longrightarrow>
   map_of (fst (assignments_loop lk asg sub lg)) t = map_of sub t"
proof (induction asg arbitrary: sub lg)
  case Nil
  then show ?case by simp
next
  case (Cons a asg)
  obtain t' d' where a: "a = (t', d')" by (cases a)
  have rest: "\<And>d. (t, d) \<in> set asg \<Longrightarrow> resolve lk d = None"
    using Cons.prems by simp
  show ?case
  proof (cases "resolve lk d'")
    case None
    then show ?thesis
      unfolding a assignments_loop_step by (simp add: Cons.IH [OF rest])
  next
    case (Some entry)
    then have "t' \<noteq> t" using Cons.prems [of d'] a by auto
    with Some show ?thesis
      unfolding a assignments_loop_step by (simp add: Cons.IH [OF rest] update_conv')
  qed
qed

lemma assignments_loop_resolved:
  "distinct (map fst asg) \<Longrightarrow> (t, d) \<in> set asg \<Longrightarrow> resolve lk d = Some entry \<Longrightarrow>
   map_of (fst (assignments_loop lk asg sub lg)) t = Some entry"
proof (induction asg arbitrary: sub lg)
  case Nil
  then show ?case by simp
next
  case (Cons a asg)
  obtain t' d' where a: "a = (t', d')" by (cases a)
  show ?case
  proof (cases "(t, d) = (t', d')")
    case True
    then have "\<And>d. (t, d) \<in> set asg \<Longrightarrow> resolve lk d = None"
      using Cons.prems(1) a by (auto simp: image_iff)
    from assignments_loop_unresolved [OF this] True Cons.prems(3) show ?thesis
      unfolding a assignments_loop_step by (simp add: update_conv')
  next
    case False
    then have mem: "(t, d) \<in> set asg" using Cons.prems(2) a by auto
    have dist: "distinct (map fst asg)" using Cons.prems(1) by simp
    show ?thesis
      unfolding a assignments_loop_step
      by (simp add: Cons.IH [OF dist mem Cons.prems(3)] split: option.splits)
  qed
qed

lemma assignments_loop_log_mono: "set lg \<subseteq> set (snd (assignments_loop lk asg sub lg))"
proof (induction asg arbitrary: sub lg)
  case Nil
  then show ?case by simp
next
  case (Cons a asg)
  obtain t' d' where a: "a = (t', d')" by (cases a)
  show ?case
    unfolding a assignments_loop_step
    using Cons.IH by (fastforce split: option.splits)
qed

lemma assignments_loop_log_malformed:
  "(t, d) \<in> set asg \<Longrightarrow> split_colon d = None \<Longrightarrow>
   LogError (''Invalid assignment descriptor '' @ quoted d) \<in> set (snd (assignments_loop lk asg sub lg))"
proof (induction asg arbitrary: sub lg)
  case Nil
  then show ?case by simp
next
  case (Cons a asg)
  obtain t' d' where a: "a = (t', d')" by (cases a)
  show ?case
  proof (cases "(t, d) = (t', d')")
    case True
    then have r: "resolve lk d' = None" using Cons.prems(2) by (simp add: resolve_def)
    have "LogError (''Invalid assignment descriptor '' @ quoted d)
            \<in> set (lg @ [LogError (''Invalid assignment descriptor '' @ quoted d)])"
      by simp
    with assignments_loop_log_mono [of "lg @ [LogError (''Invalid assignment descriptor '' @ quoted d)]" lk asg sub]
    show ?thesis
      unfolding a assignments_loop_step using True r Cons.prems(2) by auto
  next
    case False
    then have mem: "(t, d) \<in> set asg" using Cons.prems(1) a by auto
    show ?thesis
      unfolding a assignments_loop_step
      using Cons.IH [OF mem Cons.prems(2)] by (simp split: option.splits)
  qed
qed

lemma assignments_loop_fst_log:
  "fst (assignments_loop lk asg sub lg) = fst (assignments_loop lk asg sub lg')"
proof (induction asg arbitrary: sub lg lg')
  case Nil
  then show ?case by simp
next
  case (Cons a asg)
  obtain t' d' where a: "a = (t', d')" by (cases a)
  show ?case
  proof (cases "resolve lk d'")
    case None
    then show ?thesis
      unfolding a assignments_loop_step
      using Cons.IH [of sub "lg @ [if split_colon d' = None
                         then LogError (''Invalid assignment descriptor '' @ quoted d')
                         else LogWarning (''Assignment '' @ d' @ '' -> '' @ t' @ '' could not be resolved'')]"
            "lg' @ [if split_colon d' = None
                         then LogError (''Invalid assignment descriptor '' @ quoted d')
                         else LogWarning (''Assignment '' @ d' @ '' -> '' @ t' @ '' could not be resolved'')]"]
      by simp
  next
    case (Some e)
    then show ?thesis
      unfolding a assignments_loop_step
      using Cons.IH [of "AList.update t' e sub" lg lg'] by simp
  qed
qed

lemma build_subset_fst_log: "fst (build_subset lk src g lg) = fst (build_subset lk src g lg')"
proof -
  obtain sub l1 where k1: "keys_loop src (keys g) [] lg = (sub, l1)"
    by (cases "keys_loop src (keys g) [] lg") auto
  obtain sub' l2 where k2: "keys_loop src (keys g) [] lg' = (sub', l2)"
    by (cases "keys_loop src (keys g) [] lg'") auto
  have "sub' = sub"
    using keys_loop_fst_log [of src "keys g" "[]" lg lg'] k1 k2 by simp
  then show ?thesis
    using assignments_loop_fst_log [of lk "extra_assignments g" sub l1 l2]
    by (simp add: build_subset_def k1 k2)
qed

lemma build_subset_log_mono: "set lg \<subseteq> set (snd (build_subset lk src g lg))"
proof -
  obtain sub l1 where k: "keys_loop src (keys g) [] lg = (sub, l1)"
    by (cases "keys_loop src (keys g) [] lg") auto
  have "set lg \<subseteq> set l1"
    using keys_loop_log [of src "keys g" "[]" lg] k by auto
  also have "\<dots> \<subseteq> set (snd (assignments_loop lk (extra_assignments g) sub l1))"
    by (rule assignments_loop_log_mono)
  finally show ?thesis by (simp add: build_subset_def k)
qed

lemma build_subset_absent_key:
  assumes "build_subset lk src g lg = (sub, lg')"
    and "key \<in> set (keys g)" and "map_of src key = None"
    and "\<And>d. (key, d) \<in> set (extra_assignments g) \<Longrightarrow> resolve lk d = None"
  shows "map_of sub key = None"
    and "LogWarning (''Key '' @ key @ '' not found in source collection'') \<in> set lg'"
proof -
  obtain sub1 l1 where k: "keys_loop src (keys g) [] lg = (sub1, l1)"
    by (cases "keys_loop src (keys g) [] lg") auto
  have r: "assignments_loop lk (extra_assignments g) sub1 l1 = (sub, lg')"
    using assms(1) by (simp add: build_subset_def k)
  have "map_of sub1 key = None"
    using keys_loop_map_of [of src "keys g" "[]" lg key] k assms(3) by simp
  then show "map_of sub key = None"
    using assignments_loop_unresolved [of key "extra_assignments g" lk sub1 l1] assms(4) r by simp
  have "LogWarning (''Key '' @ key @ '' not found in source collection'') \<in> set l1"
    using keys_loop_log [of src "keys g" "[]" lg] k assms(2,3) by auto
  then show "LogWarning (''Key '' @ key @ '' not found in source collection'') \<in> set lg'"
    using assignments_loop_log_mono [of l1 lk "extra_assignments g" sub1] r by auto
qed

lemma build_subset_present_key:
  assumes "build_subset lk src g lg = (sub, lg')"
    and "key \<in> set (keys g)" and "map_of src key = Some e"
    and "\<And>d. (key, d) \<in> set (extra_assignments g) \<Longrightarrow> resolve lk d = None"
  shows "map_of sub key = Some e"
proof -
  obtain sub1 l1 where k: "keys_loop src (keys g) [] lg = (sub1, l1)"
    by (cases "keys_loop src (keys g) [] lg") auto
  have r: "assignments_loop lk (extra_assignments g) sub1 l1 = (sub, lg')"
    using assms(1) by (simp add: build_subset_def k)
  have "map_of sub1 key = Some e"
    using keys_loop_map_of [of src "keys g" "[]" lg key] k assms(2,3) by simp
  then show ?thesis
    using assignments_loop_unresolved [of key "extra_assignments g" lk sub1 l1] assms(4) r by simp
qed

lemma build_subset_malformed:
  assumes "build_subset lk src g lg = (sub, lg')"
    and "(t, d) \<in> set (extra_assignments g)" and "split_colon d = None"
  shows "LogError (''Invalid assignment descriptor '' @ quoted d) \<in> set lg'"
    and "(\<And>d'. (t, d') \<in> set (extra_assignments g) \<Longrightarrow> resolve lk d' = None) \<Longrightarrow>
         t \<notin> set (keys g) \<or> map_of src t = None \<Longrightarrow> map_of sub t = None"
proof -
  obtain sub1 l1 where k: "keys_loop src (keys g) [] lg = (sub1, l1)"
    by (cases "keys_loop src (keys g) [] lg") auto
  have r: "assignments_loop lk (extra_assignments g) sub1 l1 = (sub, lg')"
    using assms(1) by (simp add: build_subset_def k)
  show "LogError (''Invalid assignment descriptor '' @ quoted d) \<in> set lg'"
    using assignments_loop_log_malformed [OF assms(2,3), of lk sub1 l1] r by simp
  assume u: "\<And>d'. (t, d') \<in> set (extra_assignments g) \<Longrightarrow> resolve lk d' = None"
    and n: "t \<notin> set (keys g) \<or> map_of src t = None"
  have "map_of sub1 t = None"
    using keys_loop_map_of [of src "keys g" "[]" lg t] k n by auto
  then show "map_of sub t = None"
    using assignments_loop_unresolved [of t "extra_assignments g" lk sub1 l1] u r by simp
qed

lemma build_subset_resolved:
  assumes "build_subset lk src g lg = (sub, lg')"
    and "distinct (map fst (extra_assignments g))"
    and "(t, d) \<in> set (extra_assignments g)" and "resolve lk d = Some e"
  shows "map_of sub t = Some e"
proof -
  obtain sub1 l1 where k: "keys_loop src (keys g) [] lg = (sub1, l1)"
    by (cases "keys_loop src (keys g) [] lg") auto
  have r: "assignments_loop lk (extra_assignments g) sub1 l1 = (sub, lg')"
    using assms(1) by (simp add: build_subset_def k)
  show ?thesis
    using assignments_loop_resolved [OF assms(2,3,4), of sub1 l1] r by simp
qed

lemma groups_plan_log_mono: "set lg \<subseteq> set (snd (snd (groups_plan lk gs lg)))"
proof (induction gs arbitrary: lg)
  case Nil
  then show ?case by simp
next
  case (Cons g gs)
  show ?case
  proof (cases "map_of lk (source g)")
    case None
    then show ?thesis by simp
  next
    case (Some src)
    obtain sub l1 where b: "build_subset lk src g lg = (sub, l1)"
      by (cases "build_subset lk src g lg") auto
    obtain e us l2 where r: "groups_plan lk gs l1 = (e, us, l2)"
      by (cases "groups_plan lk gs l1") auto
    have "set lg \<subseteq> set l1" using build_subset_log_mono [of lg lk src g] b by simp
    also have "\<dots> \<subseteq> set l2" using Cons.IH [of l1] r by simp
    finally show ?thesis
      using Some b r by simp
  qed
qed

lemma groups_plan_names: "fst ` set (fst (snd (groups_plan lk gs lg))) \<subseteq> group_name ` set gs"
proof (induction gs arbitrary: lg)
  case Nil
  then show ?case by simp
next
  case (Cons g gs)
  show ?case
  proof (cases "map_of lk (source g)")
    case None
    then show ?thesis by simp
  next
    case (Some src)
    obtain sub l1 where b: "build_subset lk src g lg = (sub, l1)"
      by (cases "build_subset lk src g lg") auto
    obtain e us l2 where r: "groups_plan lk gs l1 = (e, us, l2)"
      by (cases "groups_plan lk gs l1") auto
    have "fst ` set us \<subseteq> group_name ` set gs" using Cons.IH [of l1] r by simp
    then show ?thesis
      using Some b r by auto
  qed
qed

lemma groups_plan_ok:
  "\<forall>g\<in>set gs. map_of lk (source g) \<noteq> None \<Longrightarrow> fst (groups_plan lk gs lg) = None"
proof (induction gs arbitrary: lg)
  case Nil
  then show ?case by simp
next
  case (Cons g gs)
  then obtain src where s: "map_of lk (source g) = Some src" by auto
  obtain sub l1 where b: "build_subset lk src g lg = (sub, l1)"
    by (cases "build_subset lk src g lg") auto
  obtain e us l2 where r: "groups_plan lk gs l1 = (e, us, l2)"
    by (cases "groups_plan lk gs l1") auto
  have "fst (groups_plan lk gs l1) = None" using Cons by simp
  then show ?case
    using s b r by simp
qed

lemma groups_plan_unknown_source:
  "\<forall>g'\<in>set pre. map_of lk (source g') \<noteq> None \<Longrightarrow> map_of lk (source g) = None \<Longrightarrow>
   fst (groups_plan lk (pre @ g # post) lg)
     = Some (ValueError (''Unknown dataset source '' @ quoted (source g)))"
proof (induction pre arbitrary: lg)
  case Nil
  then show ?case by simp
next
  case (Cons p pre)
  then obtain src where s: "map_of lk (source p) = Some src" by auto
  obtain sub l1 where b: "build_subset lk src p lg = (sub, l1)"
    by (cases "build_subset lk src p lg") auto
  obtain e us l2 where r: "groups_plan lk (pre @ g # post) l1 = (e, us, l2)"
    by (cases "groups_plan lk (pre @ g # post) l1") auto
  have "fst (groups_plan lk (pre @ g # post) l1)
     = Some (ValueError (''Unknown dataset source '' @ quoted (source g)))"
    using Cons by simp
  then show ?case
    using s b r by simp
qed

lemma groups_plan_entry:
  assumes "groups_plan lk gs lg = (None, us, lg')"
    and "g \<in> set gs" and "map_of lk (source g) = Some src"
    and "distinct (map group_name gs)"
  shows "\<exists>lgc. map_of us (group_name g) = Some (fst (build_subset lk src g lgc))
              \<and> set (snd (build_subset lk src g lgc)) \<subseteq> set lg'"
  using assms
proof (induction gs arbitrary: lg us)
  case Nil
  then show ?case by simp
next
  case (Cons h gs)
  from Cons.prems(1) obtain hsrc where hs: "map_of lk (source h) = Some hsrc"
    by (cases "map_of lk (source h)") auto
  obtain sub l1 where b: "build_subset lk hsrc h lg = (sub, l1)"
    by (cases "build_subset lk hsrc h lg") auto
  obtain us' where rest: "groups_plan lk gs l1 = (None, us', lg')" and us: "us = (group_name h, sub) # us'"
    using Cons.prems(1) hs b by (auto split: prod.splits)
  show ?case
  proof (cases "g = h")
    case True
    have "set l1 \<subseteq> set lg'"
      using groups_plan_log_mono [of l1 lk gs] rest by simp
    with True hs b Cons.prems(3) us show ?thesis
      by (intro exI [of _ lg]) simp
  next
    case False
    then have mem: "g \<in> set gs" using Cons.prems(2) by simp
    have "group_name h \<notin> group_name ` set gs"
      using Cons.prems(4) by simp
    then have ne: "group_name g \<noteq> group_name h"
      using mem by (metis imageI)
    have "distinct (map group_name gs)" using Cons.prems(4) by simp
    from Cons.IH [OF rest mem Cons.prems(3) this] ne us show ?thesis
      by simp
  qed
qed

lemma map_of_rev_distinct: "distinct (map fst xs) \<Longrightarrow> map_of (rev xs) = map_of xs"
  by (rule map_of_inject_set [THEN iffD2]) (simp_all add: rev_map [symmetric])

lemma groups_plan_keys_ok:
  "groups_plan lk gs lg = (None, us, lg') \<Longrightarrow> map fst us = map group_name gs"
proof (induction gs arbitrary: lg us)
  case Nil
  then show ?case by simp
next
  case (Cons h gs)
  from Cons.prems obtain hsrc where hs: "map_of lk (source h) = Some hsrc"
    by (cases "map_of lk (source h)") auto
  obtain sub l1 where b: "build_subset lk hsrc h lg = (sub, l1)"
    by (cases "build_subset lk hsrc h lg") auto
  obtain us' where rest: "groups_plan lk gs l1 = (None, us', lg')" and us: "us = (group_name h, sub) # us'"
    using Cons.prems hs b by (auto split: prod.splits)
  from Cons.IH [OF rest] us show ?case by simp
qed

lemma build_groups_plan:
  "build_groups gs s =
     (case groups_plan (collection_lookup_of s) (or_default gs (config_groups (config s))) [] of
        (e, us, lg) \<Rightarrow> (e, s\<lparr>groups := dict_update_all us (groups s)\<rparr>, lg))"
  by (simp add: build_groups_def build_groups_loop_plan)

lemma fst_build_groups:
  "fst (build_groups gs s)
   = fst (groups_plan (collection_lookup_of s) (or_default gs (config_groups (config s))) [])"
  by (cases "groups_plan (collection_lookup_of s) (or_default gs (config_groups (config s))) []")
     (simp add: build_groups_plan)

lemma lookup_known:
  "map_of (collection_lookup_of s) src \<noteq> None \<longleftrightarrow> src \<in> {''all'', ''averaged''}"
  by (simp add: collection_lookup_of_def)

lemma build_groups_entry:
  assumes run: "build_groups gs s = (None, s', lg)"
    and mem: "g \<in> set (or_default gs (config_groups (config s)))"
    and dist: "distinct (map group_name (or_default gs (config_groups (config s))))"
    and src: "map_of (collection_lookup_of s) (source g) = Some src"
  shows "\<exists>lgc. map_of (groups s') (group_name g)
                 = Some (fst (build_subset (collection_lookup_of s) src g lgc))
              \<and> set (snd (build_subset (collection_lookup_of s) src g lgc)) \<subseteq> set lg"
proof -
  let ?lk = "collection_lookup_of s"
  let ?gs = "or_default gs (config_groups (config s))"
  obtain e us l where plan: "groups_plan ?lk ?gs [] = (e, us, l)"
    by (cases "groups_plan ?lk ?gs []") auto
  have e: "e = None" and s': "s' = s\<lparr>groups := dict_update_all us (groups s)\<rparr>" and l: "l = lg"
    using run plan by (simp_all add: build_groups_plan)
  have plan': "groups_plan ?lk ?gs [] = (None, us, lg)" using plan e l by simp
  have "map fst us = map group_name ?gs" by (rule groups_plan_keys_ok [OF plan'])
  then have d: "distinct (map fst us)" using dist by simp
  obtain lgc where a: "map_of us (group_name g) = Some (fst (build_subset ?lk src g lgc))"
    and b: "set (snd (build_subset ?lk src g lgc)) \<subseteq> set lg"
    using groups_plan_entry [OF plan' mem src dist] by blast
  have "map_of (groups s') (group_name g) = Some (fst (build_subset ?lk src g lgc))"
    by (simp add: s' map_of_dict_update_all map_of_rev_distinct [OF d] a)
  with b show ?thesis by blast
qed

lemma analyse_group_unknown_group:
  "map_of (groups s) gname = None \<Longrightarrow>
   analyse_group cm s gname il ab ref
     = (Inl (KeyError (''Group '' @ quoted gname @ '' has not been built'')), s)"
  by (simp add: analyse_group_def)

lemma analyse_group_unknown_illuminant:
  "map_of (groups s) gname \<noteq> None \<Longrightarrow> map_of (illuminants (config s)) nm = None \<Longrightarrow>
   analyse_group cm s gname (ByName nm) ab ref
     = (Inl (KeyError (''Illuminant '' @ quoted nm @ '' not defined'')), s)"
  by (auto simp: analyse_group_def Let_def)

text \<open>
  Claim C4. \<open>analyse_group\<close> raises KeyError for a group name that has not been built
  and for an illuminant name that is not configured, and \<open>build_groups\<close> raises
  ValueError at the first group whose source-pool tag is neither \<open>all\<close> nor
  \<open>averaged\<close>; each leaves the state it found. With every tag known \<open>build_groups\<close>
  raises nothing, whatever the keys and descriptors: a key absent from its source pool
  is logged as a warning and left out of the built group, a descriptor without a colon
  is logged as an error and its target left out, and the remaining entries, from the
  keys and from the assignments that resolve, are in the group. (A key is judged here
  when no assignment that resolves targets it, since an assignment stores over a key.)
\<close>

theorem lookup_failures_raise_missing_entries_skipped:
  "(map_of (groups s) gname = None \<longrightarrow>
      analyse_group cm s gname il ab ref
        = (Inl (KeyError (''Group '' @ quoted gname @ '' has not been built'')), s))
   \<and> (map_of (groups s) gname \<noteq> None \<longrightarrow> map_of (illuminants (config s)) nm = None \<longrightarrow>
      analyse_group cm s gname (ByName nm) ab ref
        = (Inl (KeyError (''Illuminant '' @ quoted nm @ '' not defined'')), s))
   \<and> (or_default gs (config_groups (config s)) = pre @ g # post
        \<longrightarrow> (\<forall>h\<in>set pre. source h \<in> {''all'', ''averaged''})
        \<longrightarrow> source g \<notin> {''all'', ''averaged''}
        \<longrightarrow> fst (build_groups gs s)
              = Some (ValueError (''Unknown dataset source '' @ quoted (source g))))
   \<and> ((\<forall>h\<in>set (or_default gs (config_groups (config s))). source h \<in> {''all'', ''averaged''})
        \<longrightarrow> fst (build_groups gs s) = None)
   \<and> (build_groups gs s = (None, s', lg)
        \<longrightarrow> g \<in> set (or_default gs (config_groups (config s)))
        \<longrightarrow> distinct (map group_name (or_default gs (config_groups (config s))))
        \<longrightarrow> map_of (collection_lookup_of s) (source g) = Some src
        \<longrightarrow> (\<exists>sub. map_of (groups s') (group_name g) = Some sub
              \<and> (\<forall>key\<in>set (keys g).
                    (\<forall>d. (key, d) \<in> set (extra_assignments g) \<longrightarrow> resolve (collection_lookup_of s) d = None)
                    \<longrightarrow> (map_of src key = None
                          \<longrightarrow> map_of sub key = None
                              \<and> LogWarning (''Key '' @ key @ '' not found in source collection'') \<in> set lg)
                        \<and> (\<forall>e. map_of src key = Some e \<longrightarrow> map_of sub key = Some e))
              \<and> (\<forall>(t, d)\<in>set (extra_assignments g).
                    split_colon d = None
                    \<longrightarrow> LogError (''Invalid assignment descriptor '' @ quoted d) \<in> set lg
                        \<and> ((\<forall>d'. (t, d') \<in> set (extra_assignments g)
                                  \<longrightarrow> resolve (collection_lookup_of s) d' = None)
                            \<longrightarrow> t \<notin> set (keys g) \<or> map_of src t = None
                            \<longrightarrow> map_of sub t = None))
              \<and> (distinct (map fst (extra_assignments g))
                    \<longrightarrow> (\<forall>(t, d)\<in>set (extra_assignments g).
                          \<forall>e. resolve (collection_lookup_of s) d = Some e \<longrightarrow> map_of sub t = Some e))))"
proof (intro conjI impI)
  assume "map_of (groups s) gname = None"
  then show "analyse_group cm s gname il ab ref
        = (Inl (KeyError (''Group '' @ quoted gname @ '' has not been built'')), s)"
    by (rule analyse_group_unknown_group)
next
  assume "map_of (groups s) gname \<noteq> None" "map_of (illuminants (config s)) nm = None"
  then show "analyse_group cm s gname (ByName nm) ab ref
        = (Inl (KeyError (''Illuminant '' @ quoted nm @ '' not defined'')), s)"
    by (rule analyse_group_unknown_illuminant)
next
  assume gs: "or_default gs (config_groups (config s)) = pre @ g # post"
    and pre: "\<forall>h\<in>set pre. source h \<in> {''all'', ''averaged''}"
    and bad: "source g \<notin> {''all'', ''averaged''}"
  have "\<forall>h\<in>set pre. map_of (collection_lookup_of s) (source h) \<noteq> None"
    using pre lookup_known [of s] by blast
  moreover have "map_of (collection_lookup_of s) (source g) = None"
    using bad lookup_known [of s "source g"] by blast
  ultimately have "fst (groups_plan (collection_lookup_of s) (pre @ g # post) [])
      = Some (ValueError (''Unknown dataset source '' @ quoted (source g)))"
    by (rule groups_plan_unknown_source)
  then show "fst (build_groups gs s) = Some (ValueError (''Unknown dataset source '' @ quoted (source g)))"
    by (simp add: fst_build_groups gs)
next
  assume "\<forall>h\<in>set (or_default gs (config_groups (config s))). source h \<in> {''all'', ''averaged''}"
  then have "\<forall>h\<in>set (or_default gs (config_groups (config s))).
      map_of (collection_lookup_of s) (source h) \<noteq> None"
    using lookup_known [of s] by blast
  then have "fst (groups_plan (collection_lookup_of s) (or_default gs (config_groups (config s))) []) = None"
    by (rule groups_plan_ok)
  then show "fst (build_groups gs s) = None"
    by (simp add: fst_build_groups)
next
  let ?lk = "collection_lookup_of s"
  assume run: "build_groups gs s = (None, s', lg)"
    and mem: "g \<in> set (or_default gs (config_groups (config s)))"
    and dist: "distinct (map group_name (or_default gs (config_groups (config s))))"
    and src: "map_of ?lk (source g) = Some src"
  obtain lgc where look: "map_of (groups s') (group_name g) = Some (fst (build_subset ?lk src g lgc))"
    and logs: "set (snd (build_subset ?lk src g lgc)) \<subseteq> set lg"
    using build_groups_entry [OF run mem dist src] by blast
  obtain sub l where b: "build_subset ?lk src g lgc = (sub, l)"
    by (cases "build_subset ?lk src g lgc") auto
  have l: "set l \<subseteq> set lg" using logs b by simp
  have 1: "\<forall>key\<in>set (keys g).
                    (\<forall>d. (key, d) \<in> set (extra_assignments g) \<longrightarrow> resolve ?lk d = None)
                    \<longrightarrow> (map_of src key = None
                          \<longrightarrow> map_of sub key = None
                              \<and> LogWarning (''Key '' @ key @ '' not found in source collection'') \<in> set lg)
                        \<and> (\<forall>e. map_of src key = Some e \<longrightarrow> map_of sub key = Some e)"
    using build_subset_absent_key [OF b] build_subset_present_key [OF b] l by blast
  have 2: "\<forall>(t, d)\<in>set (extra_assignments g).
                    split_colon d = None
                    \<longrightarrow> LogError (''Invalid assignment descriptor '' @ quoted d) \<in> set lg
                        \<and> ((\<forall>d'. (t, d') \<in> set (extra_assignments g) \<longrightarrow> resolve ?lk d' = None)
                            \<longrightarrow> t \<notin> set (keys g) \<or> map_of src t = None
                            \<longrightarrow> map_of sub t = None)"
    using build_subset_malformed [OF b] l by blast
  have 3: "distinct (map fst (extra_assignments g))
                    \<longrightarrow> (\<forall>(t, d)\<in>set (extra_assignments g).
                          \<forall>e. resolve ?lk d = Some e \<longrightarrow> map_of sub t = Some e)"
    using build_subset_resolved [OF b] by blast
  from look b 1 2 3
  show "\<exists>sub. map_of (groups s') (group_name g) = Some sub
              \<and> (\<forall>key\<in>set (keys g).
                    (\<forall>d. (key, d) \<in> set (extra_assignments g) \<longrightarrow> resolve ?lk d = None)
                    \<longrightarrow> (map_of src key = None
                          \<longrightarrow> map_of sub key = None
                              \<and> LogWarning (''Key '' @ key @ '' not found in source collection'') \<in> set lg)
                        \<and> (\<forall>e. map_of src key = Some e \<longrightarrow> map_of sub key = Some e))
              \<and> (\<forall>(t, d)\<in>set (extra_assignments g).
                    split_colon d = None
                    \<longrightarrow> LogError (''Invalid assignment descriptor '' @ quoted d) \<in> set lg
                        \<and> ((\<forall>d'. (t, d') \<in> set (extra_assignments g) \<longrightarrow> resolve ?lk d' = None)
                            \<longrightarrow> t \<notin> set (keys g) \<or> map_of src t = None
                            \<longrightarrow> map_of sub t = None))
              \<and> (distinct (map fst (extra_assignments g))
                    \<longrightarrow> (\<forall>(t, d)\<in>set (extra_assignments g).
                          \<forall>e. resolve ?lk d = Some e \<longrightarrow> map_of sub t = Some e))"
    by (intro exI [of _ sub]) simp
qed

lemma example_build:
  "build_groups (Some [example_group]) example_pipeline
   = (None,
      example_pipeline\<lparr>groups := [(''G'', [(''a'', example_entry [400] [1] [1 / 10])])]\<rparr>,
      [LogWarning ''Key missing not found in source collection'',
       LogError (''Invalid assignment descriptor '' @ quoted ''nocolon'')])"
  by (simp add: build_groups_def or_default_def example_group_def example_pipeline_def
      collection_lookup_of_def build_subset_def pipeline_init_def)

lemma example_unknown_source:
  "build_groups (Some [example_group\<lparr>source := ''raw''\<rparr>]) example_pipeline
   = (Some (ValueError (''Unknown dataset source '' @ quoted ''raw'')), example_pipeline, [])"
  by (simp add: build_groups_def or_default_def example_group_def example_pipeline_def
      collection_lookup_of_def build_subset_def pipeline_init_def)

lemma example_build': "build_groups (Some [example_group]) example_pipeline = (None, example_built, example_log)"
  by (simp add: example_build example_built_def example_log_def)

text \<open>
  The theorem at the example pipeline: an unknown group, an unknown illuminant, an
  unknown pool tag, and the group with one missing key and one malformed descriptor.
\<close>

theorem lookup_failures_raise_missing_entries_skipped_witness:
  "analyse_group (\<lambda>spectrum ab il ref. Inl (RuntimeError ''unused'')) example_built ''nope'' (ByName ''D65'') True None
     = (Inl (KeyError (''Group '' @ quoted ''nope'' @ '' has not been built'')), example_built)
   \<and> analyse_group (\<lambda>spectrum ab il ref. Inl (RuntimeError ''unused'')) example_built ''G'' (ByName ''A'') True None
     = (Inl (KeyError (''Illuminant '' @ quoted ''A'' @ '' not defined'')), example_built)
   \<and> fst (build_groups (Some [example_group\<lparr>source := ''raw''\<rparr>]) example_pipeline)
     = Some (ValueError (''Unknown dataset source '' @ quoted ''raw''))
   \<and> fst (build_groups (Some [example_group]) example_pipeline) = None
   \<and> (\<exists>sub. map_of (groups example_built) ''G'' = Some sub
         \<and> map_of sub ''missing'' = None
         \<and> LogWarning ''Key missing not found in source collection'' \<in> set example_log
         \<and> map_of sub ''a'' = Some (example_entry [400] [1] [1 / 10])
         \<and> LogError (''Invalid assignment descriptor '' @ quoted ''nocolon'') \<in> set example_log
         \<and> map_of sub ''x'' = None)"
proof (intro conjI)
  let ?cm = "\<lambda>(spectrum :: spectrum_arg) (ab :: bool) (il :: string) (ref :: real list).
               (Inl (RuntimeError ''unused'') :: error + ColourMetrics)"
  show "analyse_group ?cm example_built ''nope'' (ByName ''D65'') True None
     = (Inl (KeyError (''Group '' @ quoted ''nope'' @ '' has not been built'')), example_built)"
    using lookup_failures_raise_missing_entries_skipped
      [where s = example_built and gname = "''nope''" and cm = ?cm and il = "ByName ''D65''"
         and ab = True and ref = None]
    by (simp add: example_built_def)
  show "analyse_group ?cm example_built ''G'' (ByName ''A'') True None
     = (Inl (KeyError (''Illuminant '' @ quoted ''A'' @ '' not defined'')), example_built)"
    using lookup_failures_raise_missing_entries_skipped
      [where s = example_built and gname = "''G''" and cm = ?cm and nm = "''A''"
         and ab = True and ref = None]
    by (simp add: example_built_def example_pipeline_def pipeline_init_def example_config_def)
  show "fst (build_groups (Some [example_group\<lparr>source := ''raw''\<rparr>]) example_pipeline)
     = Some (ValueError (''Unknown dataset source '' @ quoted ''raw''))"
    using lookup_failures_raise_missing_entries_skipped
      [where s = example_pipeline and gs = "Some [example_group\<lparr>source := ''raw''\<rparr>]"
         and pre = "[]" and g = "example_group\<lparr>source := ''raw''\<rparr>" and post = "[]"]
    by (simp add: or_default_def)
  show "fst (build_groups (Some [example_group]) example_pipeline) = None"
    using lookup_failures_raise_missing_entries_skipped
      [where s = example_pipeline and gs = "Some [example_group]"]
    by (simp add: or_default_def example_group_def)
  have src: "map_of (collection_lookup_of example_pipeline) (source example_group)
             = Some [(''a'', example_entry [400] [1] [1 / 10])]"
    by (simp add: collection_lookup_of_def example_pipeline_def example_group_def)
  have unres: "resolve (collection_lookup_of example_pipeline) ''nocolon'' = None"
    by (simp add: resolve_def)
  from lookup_failures_raise_missing_entries_skipped
      [where s = example_pipeline and gs = "Some [example_group]" and g = example_group
         and s' = example_built and lg = example_log
         and src = "[(''a'', example_entry [400] [1] [1 / 10])]"]
    example_build' src unres
  show "\<exists>sub. map_of (groups example_built) ''G'' = Some sub
         \<and> map_of sub ''missing'' = None
         \<and> LogWarning ''Key missing not found in source collection'' \<in> set example_log
         \<and> map_of sub ''a'' = Some (example_entry [400] [1] [1 / 10])
         \<and> LogError (''Invalid assignment descriptor '' @ quoted ''nocolon'') \<in> set example_log
         \<and> map_of sub ''x'' = None"
    by (simp add: or_default_def example_group_def) blast
qed

subsection \<open>Analysis and the results map\<close>






















lemma compute_colour_metrics_sequence_example:
  "compute_colour_metrics (Some example_colour) example_whiteness (Sequence [(400, 1)]) True
     (Some ''d65 table'') [100, 0, 0]
   = Inr \<lparr>rgb = [1, 1, 1], lab = [100, 0, 0], xyz = [95 / 100, 1, 108 / 100], whiteness = 100,
          tint = 0, lightness = 100, chroma = 0, delta_e_value = 0, delta_c_value = 0\<rparr>"
  by (simp add: compute_colour_metrics_def spectrum_to_xyz_of_def np_array_spectrum_def
      spectrum_to_xyz_def example_colour_def example_whiteness_def whiteness_and_tint_def
      lightness_chroma_def delta_e_def delta_c_def np_sub_def np_linalg_norm_def slice_1_3_def
      in_band_def dict_of_def np_clip_def Let_def)




subsection \<open>Repeated loading and grouping\<close>

lemma parse_single:
  "parse (Some (\<lambda>file. Inr \<lparr>wavelength = [400], amplitudes = [1]\<rparr>)) \<lparr>filename = f, mode = ''A''\<rparr>
   = Inr \<lparr>wavelengths = [400], absorbances = [1], transmittances = [1 / 10]\<rparr>"
  by (simp add: parse_def mode_quantities_def valid_wavelength_def np_mask_def np_argsort_def
      take_idx_def Let_def upt_small)

lemma from_directory_example:
  "from_directory example_fs p ''transmittance'' ''a'' ''.sp''
   = Inr [(p, example_entry [400] [1] [1 / 10])]"
  by (simp add: from_directory_def example_fs_def str_lower_def char_lower_def
      SpcFileParser_init_def str_upper_def char_upper_def parse_single add_def example_entry_def)

lemma averaged_singletons:
  "averaged ''#'' [(''d1'', e)] = Inr [(''d1'', e)]"
  "averaged ''#'' [(''d2'', e)] = Inr [(''d2'', e)]"
  "averaged ''#'' [(''d1'', e), (''d2'', e')] = Inr [(''d1'', e), (''d2'', e')]"
  by (simp_all add: averaged_def group_by_root_def key_root_def)

lemma load_first:
  "load_directories example_fs (Some [example_dir ''one'' ''d1'']) empty_pipeline
   = (None,
      empty_pipeline\<lparr>raw_collections := [(''one'', [(''d1'', entry1)])],
                     all_data := [(''d1'', entry1)], averaged_data := [(''d1'', entry1)]\<rparr>,
      [])"
  by (simp add: load_directories_def or_default_def example_dir_def from_directory_example
      extend_with_def build_averaged_dataset_def averaged_singletons empty_pipeline_def
      pipeline_init_def entry1_def)
     (simp add: example_fs_def)

lemma load_second:
  "load_directories example_fs (Some [example_dir ''two'' ''d2''])
      (empty_pipeline\<lparr>raw_collections := [(''one'', [(''d1'', entry1)])],
                     all_data := [(''d1'', entry1)], averaged_data := [(''d1'', entry1)]\<rparr>)
   = (None,
      empty_pipeline\<lparr>raw_collections := [(''one'', [(''d1'', entry1)]), (''two'', [(''d2'', entry1)])],
                     all_data := [(''d1'', entry1), (''d2'', entry1)],
                     averaged_data := [(''d1'', entry1), (''d2'', entry1)]\<rparr>,
      [])"
  by (simp add: load_directories_def or_default_def example_dir_def from_directory_example
      extend_with_def build_averaged_dataset_def averaged_singletons empty_pipeline_def
      pipeline_init_def entry1_def)
     (simp add: example_fs_def)

lemma load_second_alone:
  "load_directories example_fs (Some [example_dir ''two'' ''d2'']) empty_pipeline
   = (None,
      empty_pipeline\<lparr>raw_collections := [(''two'', [(''d2'', entry1)])],
                     all_data := [(''d2'', entry1)], averaged_data := [(''d2'', entry1)]\<rparr>,
      [])"
  by (simp add: load_directories_def or_default_def example_dir_def from_directory_example
      extend_with_def build_averaged_dataset_def averaged_singletons empty_pipeline_def
      pipeline_init_def entry1_def)
     (simp add: example_fs_def)

lemma groups_first:
  "build_groups (Some [example_named_group ''first'']) empty_pipeline
   = (None, empty_pipeline\<lparr>groups := [(''first'', [])]\<rparr>, [])"
  by (simp add: build_groups_def or_default_def example_named_group_def collection_lookup_of_def
      build_subset_def empty_pipeline_def pipeline_init_def)

lemma groups_second:
  "build_groups (Some [example_named_group ''second'']) (empty_pipeline\<lparr>groups := [(''first'', [])]\<rparr>)
   = (None, empty_pipeline\<lparr>groups := [(''first'', []), (''second'', [])]\<rparr>, [])"
  by (simp add: build_groups_def or_default_def example_named_group_def collection_lookup_of_def
      build_subset_def empty_pipeline_def pipeline_init_def)

lemma load_directories_keeps:
  assumes run: "load_directories fs dirs s = (e, s', lg)"
  shows "fst ` set (raw_collections s) \<subseteq> fst ` set (raw_collections s')"
    and "fst ` set (all_data s) \<subseteq> fst ` set (all_data s')"
    and "e = None \<Longrightarrow> all_data s' \<noteq> [] \<Longrightarrow> averaged ''#'' (all_data s') = Inr (averaged_data s')"
proof -
  let ?ds = "or_default dirs (directories (config s))"
  obtain e0 us lg0 where plan: "load_plan fs ?ds [] = (e0, us, lg0)"
    by (cases "load_plan fs ?ds []") auto
  define sL where "sL = s\<lparr>raw_collections := dict_update_all us (raw_collections s),
                all_data := dict_update_all (concat (map snd us)) (all_data s)\<rparr>"
  have loop: "load_loop fs ?ds s [] = (e0, sL, lg0)"
    by (simp add: load_loop_plan plan sL_def)
  have kL: "fst ` set (raw_collections s) \<subseteq> fst ` set (raw_collections sL)"
    "fst ` set (all_data s) \<subseteq> fst ` set (all_data sL)"
    by (simp_all add: sL_def keys_dict_update_all)
  have shape: "raw_collections s' = raw_collections sL \<and> all_data s' = all_data sL
      \<and> (e = None \<longrightarrow> all_data s' \<noteq> [] \<longrightarrow> averaged ''#'' (all_data s') = Inr (averaged_data s'))"
  proof (cases e0)
    case (Some err)
    then have "s' = sL" "e = Some err"
      using run loop by (simp_all add: load_directories_def)
    then show ?thesis by simp
  next
    case None
    obtain e1 s1 where avg: "build_averaged_dataset sL = (e1, s1)"
      by (cases "build_averaged_dataset sL") auto
    have r: "s' = s1" "e = e1"
      using run loop None avg by (simp_all add: load_directories_def)
    show ?thesis
      using avg unfolding r
      by (auto simp: build_averaged_dataset_def split: if_splits sum.splits)
  qed
  show "fst ` set (raw_collections s) \<subseteq> fst ` set (raw_collections s')"
    and "fst ` set (all_data s) \<subseteq> fst ` set (all_data s')"
    using kL shape by simp_all
  show "e = None \<Longrightarrow> all_data s' \<noteq> [] \<Longrightarrow> averaged ''#'' (all_data s') = Inr (averaged_data s')"
    using shape by blast
qed

lemma load_plan_members:
  "(n, c) \<in> set (fst (snd (load_plan fs ds lg))) \<Longrightarrow>
   \<exists>d\<in>set ds. n = dir_name d \<and> path_exists fs (path d)
     \<and> from_directory fs (path d) (dir_measurement d) (dir_mode d) (extension d) = Inr c"
proof (induction ds arbitrary: lg)
  case Nil
  then show ?case by simp
next
  case (Cons d ds)
  show ?case
  proof (cases "path_exists fs (path d)")
    case False
    then show ?thesis using Cons.IH Cons.prems by auto
  next
    case True
    show ?thesis
    proof (cases "from_directory fs (path d) (dir_measurement d) (dir_mode d) (extension d)")
      case (Inl err)
      then show ?thesis using Cons.prems True by simp
    next
      case (Inr c')
      obtain e us l where r: "load_plan fs ds lg = (e, us, l)"
        by (cases "load_plan fs ds lg") auto
      have "(n, c) = (dir_name d, c') \<or> (n, c) \<in> set us"
        using Cons.prems True Inr r by simp
      then show ?thesis
      proof
        assume "(n, c) = (dir_name d, c')"
        then show ?thesis using True Inr by simp
      next
        assume "(n, c) \<in> set us"
        then have "(n, c) \<in> set (fst (snd (load_plan fs ds lg)))" using r by simp
        from Cons.IH [OF this] show ?thesis by auto
      qed
    qed
  qed
qed

lemma load_plan_distinct:
  "distinct (map dir_name ds) \<Longrightarrow> distinct (map fst (fst (snd (load_plan fs ds lg))))"
proof (induction ds arbitrary: lg)
  case Nil
  then show ?case by simp
next
  case (Cons d ds)
  have dist: "distinct (map dir_name ds)" and fresh: "dir_name d \<notin> dir_name ` set ds"
    using Cons.prems by simp_all
  show ?case
  proof (cases "path_exists fs (path d)")
    case False
    then show ?thesis using Cons.IH [OF dist] by simp
  next
    case True
    show ?thesis
    proof (cases "from_directory fs (path d) (dir_measurement d) (dir_mode d) (extension d)")
      case (Inl err)
      then show ?thesis using True by simp
    next
      case (Inr c')
      obtain e us l where r: "load_plan fs ds lg = (e, us, l)"
        by (cases "load_plan fs ds lg") auto
      have d_us: "distinct (map fst us)" using Cons.IH [OF dist, of lg] r by simp
      have "dir_name d \<notin> fst ` set us"
      proof
        assume "dir_name d \<in> fst ` set us"
        then obtain c where "(dir_name d, c) \<in> set (fst (snd (load_plan fs ds lg)))"
          using r by auto
        from load_plan_members [OF this] fresh show False by auto
      qed
      then show ?thesis using True Inr r d_us by simp
    qed
  qed
qed

lemma load_plan_entry:
  assumes "load_plan fs ds lg = (None, us, lg')"
    and "d \<in> set ds" and "path_exists fs (path d)"
  shows "\<exists>c. from_directory fs (path d) (dir_measurement d) (dir_mode d) (extension d) = Inr c
             \<and> (dir_name d, c) \<in> set us"
  using assms
proof (induction ds arbitrary: lg us)
  case Nil
  then show ?case by simp
next
  case (Cons h ds)
  show ?case
  proof (cases "path_exists fs (path h)")
    case False
    then have mem: "d \<in> set ds" using Cons.prems(2,3) by auto
    have rest: "load_plan fs ds
        (lg @ [LogWarning (''Directory '' @ path h @ '' does not exist; skipping'')]) = (None, us, lg')"
      using Cons.prems(1) False by simp
    from Cons.IH [OF rest mem Cons.prems(3)] show ?thesis .
  next
    case True
    from Cons.prems(1) True obtain c' where
      fd: "from_directory fs (path h) (dir_measurement h) (dir_mode h) (extension h) = Inr c'"
      by (cases "from_directory fs (path h) (dir_measurement h) (dir_mode h) (extension h)") auto
    obtain us' where rest: "load_plan fs ds lg = (None, us', lg')" and us: "us = (dir_name h, c') # us'"
      using Cons.prems(1) True fd by (auto split: prod.splits)
    show ?thesis
    proof (cases "d = h")
      case True
      then show ?thesis using fd us by simp
    next
      case False
      then have mem: "d \<in> set ds" using Cons.prems(2) by simp
      from Cons.IH [OF rest mem Cons.prems(3)] us show ?thesis by auto
    qed
  qed
qed

lemma load_directories_state:
  assumes run: "load_directories fs dirs s = (e, s', lg)"
  shows "raw_collections s'
         = dict_update_all (fst (snd (load_plan fs (or_default dirs (directories (config s))) [])))
             (raw_collections s)"
    and "all_data s'
         = dict_update_all
             (concat (map snd (fst (snd (load_plan fs (or_default dirs (directories (config s))) [])))))
             (all_data s)"
    and "s' = s\<lparr>raw_collections := raw_collections s', all_data := all_data s',
                 averaged_data := averaged_data s'\<rparr>"
    and "e = None \<Longrightarrow> fst (load_plan fs (or_default dirs (directories (config s))) []) = None"
proof -
  let ?ds = "or_default dirs (directories (config s))"
  obtain e0 us lg0 where plan: "load_plan fs ?ds [] = (e0, us, lg0)"
    by (cases "load_plan fs ?ds []") auto
  define sL where "sL = s\<lparr>raw_collections := dict_update_all us (raw_collections s),
                all_data := dict_update_all (concat (map snd us)) (all_data s)\<rparr>"
  have loop: "load_loop fs ?ds s [] = (e0, sL, lg0)"
    by (simp add: load_loop_plan plan sL_def)
  have shape: "raw_collections s' = raw_collections sL \<and> all_data s' = all_data sL
      \<and> s' = sL\<lparr>averaged_data := averaged_data s'\<rparr> \<and> (e = None \<longrightarrow> e0 = None)"
  proof (cases e0)
    case (Some err)
    then have "s' = sL" "e = Some err"
      using run loop by (simp_all add: load_directories_def)
    then show ?thesis by simp
  next
    case None
    obtain e1 s1 where avg: "build_averaged_dataset sL = (e1, s1)"
      by (cases "build_averaged_dataset sL") auto
    have r: "s' = s1" "e = e1"
      using run loop None avg by (simp_all add: load_directories_def)
    show ?thesis
      using avg None unfolding r
      by (auto simp: build_averaged_dataset_def split: if_splits sum.splits)
  qed
  show "raw_collections s' = dict_update_all (fst (snd (load_plan fs ?ds []))) (raw_collections s)"
    using shape by (simp add: plan sL_def)
  show "all_data s' = dict_update_all (concat (map snd (fst (snd (load_plan fs ?ds []))))) (all_data s)"
    using shape by (simp add: plan sL_def)
  have "s' = sL\<lparr>averaged_data := averaged_data s'\<rparr>" using shape by blast
  then have "s' = s\<lparr>raw_collections := raw_collections sL, all_data := all_data sL,
                 averaged_data := averaged_data s'\<rparr>"
    by (simp add: sL_def)
  then show "s' = s\<lparr>raw_collections := raw_collections s', all_data := all_data s',
                 averaged_data := averaged_data s'\<rparr>"
    using shape by simp
  show "e = None \<Longrightarrow> fst (load_plan fs ?ds []) = None"
    using shape plan by simp
qed

lemma dict_update_all_other:
  "k \<notin> fst ` set us \<Longrightarrow> map_of (dict_update_all us d) k = map_of d k"
proof -
  assume "k \<notin> fst ` set us"
  then have "map_of (rev us) k = None" by (simp add: map_of_eq_None_iff)
  then show ?thesis by (simp add: map_of_dict_update_all map_add_def)
qed

lemma load_directories_values:
  assumes run: "load_directories fs dirs s = (e, s', lg)"
  shows "n \<notin> dir_name ` set (or_default dirs (directories (config s)))
         \<Longrightarrow> map_of (raw_collections s') n = map_of (raw_collections s) n"
    and "\<forall>d\<in>set (or_default dirs (directories (config s))). \<forall>c.
            from_directory fs (path d) (dir_measurement d) (dir_mode d) (extension d) = Inr c
            \<longrightarrow> k \<notin> fst ` set c
         \<Longrightarrow> map_of (all_data s') k = map_of (all_data s) k"
    and "e = None \<Longrightarrow> d \<in> set (or_default dirs (directories (config s)))
         \<Longrightarrow> path_exists fs (path d)
         \<Longrightarrow> distinct (map dir_name (or_default dirs (directories (config s))))
         \<Longrightarrow> \<exists>c. from_directory fs (path d) (dir_measurement d) (dir_mode d) (extension d) = Inr c
                  \<and> map_of (raw_collections s') (dir_name d) = Some c"
proof -
  let ?ds = "or_default dirs (directories (config s))"
  let ?us = "fst (snd (load_plan fs ?ds []))"
  note st = load_directories_state [OF run]
  {
    assume n: "n \<notin> dir_name ` set ?ds"
    have "n \<notin> fst ` set ?us"
    proof
      assume "n \<in> fst ` set ?us"
      then obtain c where "(n, c) \<in> set ?us" by auto
      from load_plan_members [OF this] n show False by auto
    qed
    then show "map_of (raw_collections s') n = map_of (raw_collections s) n"
      by (simp add: st(1) dict_update_all_other)
  }
  {
    assume k: "\<forall>d\<in>set ?ds. \<forall>c.
            from_directory fs (path d) (dir_measurement d) (dir_mode d) (extension d) = Inr c
            \<longrightarrow> k \<notin> fst ` set c"
    have "k \<notin> fst ` set (concat (map snd ?us))"
    proof
      assume "k \<in> fst ` set (concat (map snd ?us))"
      then obtain n c where mem: "(n, c) \<in> set ?us" and kc: "k \<in> fst ` set c"
        by force
      from load_plan_members [OF mem] obtain d where "d \<in> set ?ds"
        "from_directory fs (path d) (dir_measurement d) (dir_mode d) (extension d) = Inr c"
        by auto
      with k kc show False by blast
    qed
    then show "map_of (all_data s') k = map_of (all_data s) k"
      by (simp add: st(2) dict_update_all_other)
  }
  {
    assume e: "e = None" and mem: "d \<in> set ?ds" and ex: "path_exists fs (path d)"
      and dist: "distinct (map dir_name ?ds)"
    obtain lg0 where plan: "load_plan fs ?ds [] = (None, ?us, lg0)"
      using st(4) [OF e] by (cases "load_plan fs ?ds []") auto
    from load_plan_entry [OF plan mem ex] obtain c where
      fd: "from_directory fs (path d) (dir_measurement d) (dir_mode d) (extension d) = Inr c"
      and inus: "(dir_name d, c) \<in> set ?us" by auto
    have du: "distinct (map fst ?us)" by (rule load_plan_distinct [OF dist])
    then have "map_of ?us (dir_name d) = Some c" using inus by simp
    then have "map_of (rev ?us) (dir_name d) = Some c"
      by (simp add: map_of_rev_distinct [OF du])
    then have "map_of (raw_collections s') (dir_name d) = Some c"
      by (simp add: st(1) map_of_dict_update_all)
    with fd show "\<exists>c. from_directory fs (path d) (dir_measurement d) (dir_mode d) (extension d) = Inr c
                  \<and> map_of (raw_collections s') (dir_name d) = Some c" by blast
  }
qed

lemma build_groups_keeps:
  assumes run: "build_groups gs s = (e, s', lg)"
  shows "fst ` set (groups s) \<subseteq> fst ` set (groups s')"
    and "n \<notin> group_name ` set (or_default gs (config_groups (config s)))
         \<Longrightarrow> map_of (groups s') n = map_of (groups s) n"
proof -
  let ?lk = "collection_lookup_of s"
  let ?gs = "or_default gs (config_groups (config s))"
  obtain e0 us l where plan: "groups_plan ?lk ?gs [] = (e0, us, l)"
    by (cases "groups_plan ?lk ?gs []") auto
  have s': "s' = s\<lparr>groups := dict_update_all us (groups s)\<rparr>"
    using run plan by (simp add: build_groups_plan)
  show "fst ` set (groups s) \<subseteq> fst ` set (groups s')"
    by (simp add: s' keys_dict_update_all)
  assume n: "n \<notin> group_name ` set ?gs"
  have "fst ` set us \<subseteq> group_name ` set ?gs"
    using groups_plan_names [of ?lk ?gs "[]"] plan by simp
  then have "n \<notin> fst ` set (rev us)" using n by auto
  then have "map_of (rev us) n = None" by (simp add: map_of_eq_None_iff)
  then show "map_of (groups s') n = map_of (groups s) n"
    by (simp add: s' map_of_dict_update_all map_add_def)
qed

lemma build_groups_fresh:
  assumes run: "build_groups gs s = (None, s', lg)"
    and mem: "g \<in> set (or_default gs (config_groups (config s)))"
    and dist: "distinct (map group_name (or_default gs (config_groups (config s))))"
    and src: "map_of (collection_lookup_of s) (source g) = Some src"
  shows "map_of (groups s') (group_name g) = Some (fst (build_subset (collection_lookup_of s) src g []))"
  using build_groups_entry [OF run mem dist src]
    build_subset_fst_log [of "collection_lookup_of s" src g _ "[]"]
  by auto

text \<open>
  Claim C3 (as amended). \<open>load_directories\<close> and \<open>build_groups\<close> are idempotent:
  repeating a call with the same arguments, on the same file system, ends as the first
  call did and leaves the state the first call left. They do not rebuild wholesale.
  \<open>load_directories\<close> changes the raw collections, the raw pool and the averaged pool
  only; the raw collections are the earlier ones with each loaded directory stored
  under its name, and the raw pool is the earlier one with every loaded entry stored
  under its key, in the order of loading. So a name that no directory of the call
  bears, and a key that no loaded directory holds, keep their earlier value, and the
  name of a loaded directory holds the collection just loaded. The averaged pool is
  recomputed from the whole raw pool. \<open>build_groups\<close> keeps every group whose name
  the call does not mention and replaces each group it names by a subset assembled
  from the pools alone.
\<close>

theorem load_and_build_groups_idempotent:
  "(load_directories fs dirs s = (e, s', lg)
      \<longrightarrow> distinct (map fst (raw_collections s)) \<longrightarrow> distinct (map fst (all_data s))
      \<longrightarrow> load_directories fs dirs s' = (e, s', lg))
   \<and> (build_groups gs s = (e, s', lg) \<longrightarrow> distinct (map fst (groups s))
      \<longrightarrow> build_groups gs s' = (e, s', lg))
   \<and> (load_directories fs dirs s = (e, s', lg)
      \<longrightarrow> fst ` set (raw_collections s) \<subseteq> fst ` set (raw_collections s')
        \<and> fst ` set (all_data s) \<subseteq> fst ` set (all_data s')
        \<and> (e = None \<longrightarrow> all_data s' \<noteq> [] \<longrightarrow> averaged ''#'' (all_data s') = Inr (averaged_data s')))
   \<and> (build_groups gs s = (e, s', lg)
      \<longrightarrow> fst ` set (groups s) \<subseteq> fst ` set (groups s')
        \<and> (\<forall>n. n \<notin> group_name ` set (or_default gs (config_groups (config s)))
               \<longrightarrow> map_of (groups s') n = map_of (groups s) n))
   \<and> (build_groups gs s = (None, s', lg)
      \<longrightarrow> g \<in> set (or_default gs (config_groups (config s)))
      \<longrightarrow> distinct (map group_name (or_default gs (config_groups (config s))))
      \<longrightarrow> map_of (collection_lookup_of s) (source g) = Some src
      \<longrightarrow> map_of (groups s') (group_name g)
            = Some (fst (build_subset (collection_lookup_of s) src g [])))
   \<and> (load_directories fs dirs s = (e, s', lg)
      \<longrightarrow> s' = s\<lparr>raw_collections := raw_collections s', all_data := all_data s',
                   averaged_data := averaged_data s'\<rparr>
        \<and> raw_collections s'
            = dict_update_all (fst (snd (load_plan fs (or_default dirs (directories (config s))) [])))
                (raw_collections s)
        \<and> all_data s'
            = dict_update_all
                (concat (map snd (fst (snd (load_plan fs (or_default dirs (directories (config s))) [])))))
                (all_data s)
        \<and> (\<forall>n. n \<notin> dir_name ` set (or_default dirs (directories (config s)))
               \<longrightarrow> map_of (raw_collections s') n = map_of (raw_collections s) n)
        \<and> (\<forall>k. (\<forall>d\<in>set (or_default dirs (directories (config s))). \<forall>c.
                    from_directory fs (path d) (dir_measurement d) (dir_mode d) (extension d) = Inr c
                    \<longrightarrow> k \<notin> fst ` set c)
               \<longrightarrow> map_of (all_data s') k = map_of (all_data s) k)
        \<and> (e = None \<longrightarrow> distinct (map dir_name (or_default dirs (directories (config s))))
             \<longrightarrow> (\<forall>d\<in>set (or_default dirs (directories (config s))).
                    path_exists fs (path d)
                    \<longrightarrow> (\<exists>c. from_directory fs (path d) (dir_measurement d) (dir_mode d) (extension d)
                               = Inr c
                             \<and> map_of (raw_collections s') (dir_name d) = Some c))))"
proof (intro conjI impI allI ballI)
  assume "load_directories fs dirs s = (e, s', lg)" "distinct (map fst (raw_collections s))"
    "distinct (map fst (all_data s))"
  then show "load_directories fs dirs s' = (e, s', lg)" by (rule load_directories_idem)
next
  assume "build_groups gs s = (e, s', lg)" "distinct (map fst (groups s))"
  then show "build_groups gs s' = (e, s', lg)" by (rule build_groups_idem)
next
  assume r: "load_directories fs dirs s = (e, s', lg)"
  show "fst ` set (raw_collections s) \<subseteq> fst ` set (raw_collections s')"
    by (rule load_directories_keeps(1) [OF r])
  show "fst ` set (all_data s) \<subseteq> fst ` set (all_data s')"
    by (rule load_directories_keeps(2) [OF r])
  assume "e = None" "all_data s' \<noteq> []"
  then show "averaged ''#'' (all_data s') = Inr (averaged_data s')"
    by (rule load_directories_keeps(3) [OF r])
next
  assume r: "build_groups gs s = (e, s', lg)"
  show "fst ` set (groups s) \<subseteq> fst ` set (groups s')"
    by (rule build_groups_keeps(1) [OF r])
  fix n
  assume "n \<notin> group_name ` set (or_default gs (config_groups (config s)))"
  then show "map_of (groups s') n = map_of (groups s) n"
    by (rule build_groups_keeps(2) [OF r])
next
  assume "build_groups gs s = (None, s', lg)" "g \<in> set (or_default gs (config_groups (config s)))"
    "distinct (map group_name (or_default gs (config_groups (config s))))"
    "map_of (collection_lookup_of s) (source g) = Some src"
  then show "map_of (groups s') (group_name g)
            = Some (fst (build_subset (collection_lookup_of s) src g []))"
    by (rule build_groups_fresh)
next
  assume r: "load_directories fs dirs s = (e, s', lg)"
  show "s' = s\<lparr>raw_collections := raw_collections s', all_data := all_data s',
                   averaged_data := averaged_data s'\<rparr>"
    by (rule load_directories_state(3) [OF r])
  show "raw_collections s'
            = dict_update_all (fst (snd (load_plan fs (or_default dirs (directories (config s))) [])))
                (raw_collections s)"
    by (rule load_directories_state(1) [OF r])
  show "all_data s'
            = dict_update_all
                (concat (map snd (fst (snd (load_plan fs (or_default dirs (directories (config s))) [])))))
                (all_data s)"
    by (rule load_directories_state(2) [OF r])
  {
    fix n
    assume "n \<notin> dir_name ` set (or_default dirs (directories (config s)))"
    then show "map_of (raw_collections s') n = map_of (raw_collections s) n"
      by (rule load_directories_values(1) [OF r])
  }
  {
    fix k
    assume "\<forall>d\<in>set (or_default dirs (directories (config s))). \<forall>c.
                    from_directory fs (path d) (dir_measurement d) (dir_mode d) (extension d) = Inr c
                    \<longrightarrow> k \<notin> fst ` set c"
    then show "map_of (all_data s') k = map_of (all_data s) k"
      by (rule load_directories_values(2) [OF r])
  }
  fix d
  assume "e = None" "distinct (map dir_name (or_default dirs (directories (config s))))"
    "d \<in> set (or_default dirs (directories (config s)))" "path_exists fs (path d)"
  then show "\<exists>c. from_directory fs (path d) (dir_measurement d) (dir_mode d) (extension d) = Inr c
                \<and> map_of (raw_collections s') (dir_name d) = Some c"
    using load_directories_values(3) [OF r] by blast
qed

text \<open>
  The claim as stated fails: loading directory \<open>d1\<close> and then \<open>d2\<close> leaves both
  entries in the raw and averaged pools, where a single call for \<open>d2\<close> leaves one;
  building group \<open>first\<close> and then \<open>second\<close> leaves both groups in the map.
\<close>

theorem load_and_build_groups_idempotent_counterexample:
  "load_directories example_fs (Some [example_dir ''one'' ''d1'']) empty_pipeline
     = (None,
        empty_pipeline\<lparr>raw_collections := [(''one'', [(''d1'', entry1)])],
                       all_data := [(''d1'', entry1)], averaged_data := [(''d1'', entry1)]\<rparr>,
        [])
   \<and> load_directories example_fs (Some [example_dir ''two'' ''d2''])
        (empty_pipeline\<lparr>raw_collections := [(''one'', [(''d1'', entry1)])],
                       all_data := [(''d1'', entry1)], averaged_data := [(''d1'', entry1)]\<rparr>)
     = (None,
        empty_pipeline\<lparr>raw_collections := [(''one'', [(''d1'', entry1)]), (''two'', [(''d2'', entry1)])],
                       all_data := [(''d1'', entry1), (''d2'', entry1)],
                       averaged_data := [(''d1'', entry1), (''d2'', entry1)]\<rparr>,
        [])
   \<and> load_directories example_fs (Some [example_dir ''two'' ''d2'']) empty_pipeline
     = (None,
        empty_pipeline\<lparr>raw_collections := [(''two'', [(''d2'', entry1)])],
                       all_data := [(''d2'', entry1)], averaged_data := [(''d2'', entry1)]\<rparr>,
        [])
   \<and> build_groups (Some [example_named_group ''first'']) empty_pipeline
     = (None, empty_pipeline\<lparr>groups := [(''first'', [])]\<rparr>, [])
   \<and> build_groups (Some [example_named_group ''second'']) (empty_pipeline\<lparr>groups := [(''first'', [])]\<rparr>)
     = (None, empty_pipeline\<lparr>groups := [(''first'', []), (''second'', [])]\<rparr>, [])"
  using load_first load_second load_second_alone groups_first groups_second by simp

text \<open>
  The theorem at the example file system and at the example group: a second identical
  call changes nothing, a call for another group keeps the first, and loading
  directory \<open>d2\<close> after \<open>d1\<close> keeps the collection and the entry of \<open>d1\<close> and stores
  the collection of \<open>d2\<close>.
\<close>

theorem load_and_build_groups_idempotent_witness:
  "load_directories example_fs (Some [example_dir ''one'' ''d1''])
      (empty_pipeline\<lparr>raw_collections := [(''one'', [(''d1'', entry1)])],
                     all_data := [(''d1'', entry1)], averaged_data := [(''d1'', entry1)]\<rparr>)
     = (None,
        empty_pipeline\<lparr>raw_collections := [(''one'', [(''d1'', entry1)])],
                       all_data := [(''d1'', entry1)], averaged_data := [(''d1'', entry1)]\<rparr>,
        [])
   \<and> build_groups (Some [example_group]) example_built = (None, example_built, example_log)
   \<and> map_of (groups (empty_pipeline\<lparr>groups := [(''first'', []), (''second'', [])]\<rparr>)) ''first''
       = map_of (groups (empty_pipeline\<lparr>groups := [(''first'', [])]\<rparr>)) ''first''
   \<and> map_of (raw_collections (fst (snd (load_directories example_fs (Some [example_dir ''two'' ''d2''])
      (empty_pipeline\<lparr>raw_collections := [(''one'', [(''d1'', entry1)])],
                     all_data := [(''d1'', entry1)], averaged_data := [(''d1'', entry1)]\<rparr>))))) ''one''
       = Some [(''d1'', entry1)]
   \<and> map_of (all_data (fst (snd (load_directories example_fs (Some [example_dir ''two'' ''d2''])
      (empty_pipeline\<lparr>raw_collections := [(''one'', [(''d1'', entry1)])],
                     all_data := [(''d1'', entry1)], averaged_data := [(''d1'', entry1)]\<rparr>))))) ''d1''
       = Some entry1
   \<and> map_of (raw_collections (fst (snd (load_directories example_fs (Some [example_dir ''two'' ''d2''])
      (empty_pipeline\<lparr>raw_collections := [(''one'', [(''d1'', entry1)])],
                     all_data := [(''d1'', entry1)], averaged_data := [(''d1'', entry1)]\<rparr>))))) ''two''
       = Some [(''d2'', entry1)]"
proof (intro conjI)
  show "load_directories example_fs (Some [example_dir ''one'' ''d1''])
      (empty_pipeline\<lparr>raw_collections := [(''one'', [(''d1'', entry1)])],
                     all_data := [(''d1'', entry1)], averaged_data := [(''d1'', entry1)]\<rparr>)
     = (None,
        empty_pipeline\<lparr>raw_collections := [(''one'', [(''d1'', entry1)])],
                       all_data := [(''d1'', entry1)], averaged_data := [(''d1'', entry1)]\<rparr>,
        [])"
    using load_and_build_groups_idempotent
      [where fs = example_fs and dirs = "Some [example_dir ''one'' ''d1'']" and s = empty_pipeline
         and e = None and lg = "[]"
         and s' = "empty_pipeline\<lparr>raw_collections := [(''one'', [(''d1'', entry1)])],
                       all_data := [(''d1'', entry1)], averaged_data := [(''d1'', entry1)]\<rparr>",
       THEN conjunct1]
      load_first
    by (simp add: empty_pipeline_def pipeline_init_def)
  show "build_groups (Some [example_group]) example_built = (None, example_built, example_log)"
    using load_and_build_groups_idempotent
      [where gs = "Some [example_group]" and s = example_pipeline and e = None
         and lg = example_log and s' = example_built, THEN conjunct2, THEN conjunct1]
      example_build'
    by (simp add: example_pipeline_def pipeline_init_def)
  show "map_of (groups (empty_pipeline\<lparr>groups := [(''first'', []), (''second'', [])]\<rparr>)) ''first''
       = map_of (groups (empty_pipeline\<lparr>groups := [(''first'', [])]\<rparr>)) ''first''"
    using load_and_build_groups_idempotent
      [where gs = "Some [example_named_group ''second'']"
         and s = "empty_pipeline\<lparr>groups := [(''first'', [])]\<rparr>" and e = None and lg = "[]"
         and s' = "empty_pipeline\<lparr>groups := [(''first'', []), (''second'', [])]\<rparr>",
       THEN conjunct2, THEN conjunct2, THEN conjunct2, THEN conjunct1]
      groups_second
    by (simp add: or_default_def example_named_group_def)
  note second = load_and_build_groups_idempotent
      [where fs = example_fs and dirs = "Some [example_dir ''two'' ''d2'']" and e = None and lg = "[]"
         and s = "empty_pipeline\<lparr>raw_collections := [(''one'', [(''d1'', entry1)])],
                     all_data := [(''d1'', entry1)], averaged_data := [(''d1'', entry1)]\<rparr>"
         and s' = "empty_pipeline\<lparr>raw_collections := [(''one'', [(''d1'', entry1)]), (''two'', [(''d2'', entry1)])],
                     all_data := [(''d1'', entry1), (''d2'', entry1)],
                     averaged_data := [(''d1'', entry1), (''d2'', entry1)]\<rparr>",
       THEN conjunct2, THEN conjunct2, THEN conjunct2, THEN conjunct2, THEN conjunct2, THEN mp,
       OF load_second]
  show "map_of (raw_collections (fst (snd (load_directories example_fs (Some [example_dir ''two'' ''d2''])
      (empty_pipeline\<lparr>raw_collections := [(''one'', [(''d1'', entry1)])],
                     all_data := [(''d1'', entry1)], averaged_data := [(''d1'', entry1)]\<rparr>))))) ''one''
       = Some [(''d1'', entry1)]"
    using second [THEN conjunct2, THEN conjunct2, THEN conjunct2, THEN conjunct1,
        THEN spec [of _ "''one''"]]
    by (simp only: load_second) (simp add: or_default_def example_dir_def)
  show "map_of (all_data (fst (snd (load_directories example_fs (Some [example_dir ''two'' ''d2''])
      (empty_pipeline\<lparr>raw_collections := [(''one'', [(''d1'', entry1)])],
                     all_data := [(''d1'', entry1)], averaged_data := [(''d1'', entry1)]\<rparr>))))) ''d1''
       = Some entry1"
    using second [THEN conjunct2, THEN conjunct2, THEN conjunct2, THEN conjunct2, THEN conjunct1,
        THEN spec [of _ "''d1''"]]
    by (simp only: load_second) (simp add: or_default_def example_dir_def from_directory_example)
  show "map_of (raw_collections (fst (snd (load_directories example_fs (Some [example_dir ''two'' ''d2''])
      (empty_pipeline\<lparr>raw_collections := [(''one'', [(''d1'', entry1)])],
                     all_data := [(''d1'', entry1)], averaged_data := [(''d1'', entry1)]\<rparr>))))) ''two''
       = Some [(''d2'', entry1)]"
    using second [THEN conjunct2, THEN conjunct2, THEN conjunct2, THEN conjunct2, THEN conjunct2]
    by (simp only: load_second) (simp add: or_default_def example_dir_def from_directory_example)
qed

end
